theory Spec2Isabelle
  imports Complex_Main
begin

section \<open>Learning Lanes: progress tracking, badges and lane generation\<close>

text \<open>
  A shallow embedding of the progress tracker and badge engine of \<^verbatim>\<open>src/lib/firestore.ts\<close>,
  of the search and assembly steps of \<^verbatim>\<open>src/lib/laneGenerator.ts\<close>, of the JSON recovery
  path of the Gemini provider and of \<^verbatim>\<open>parseDuration\<close> in \<^verbatim>\<open>src/lib/youtube.ts\<close>.

  Conventions of the model:
  \<^item> a JavaScript \<^verbatim>\<open>number\<close> that the code computes (a percentage, a parsed amount, a total
    of seconds) is a \<open>number\<close>: a finite double, \<^verbatim>\<open>Infinity\<close>, \<^verbatim>\<open>-Infinity\<close> or \<^verbatim>\<open>NaN\<close>; every
    arithmetic operation rounds its exact result to the nearest double, a tie going to the
    even significand, as IEEE 754 binary64 does. Negative zero is not told apart from zero;
  \<^item> a \<^verbatim>\<open>number\<close> handed to the code as a measurement (a playback position, a duration, a
    score, an index read from untrusted JSON) is finite, and is held as the real number it
    denotes;
  \<^item> a \<^verbatim>\<open>Date\<close> is a \<open>timestamp\<close> (milliseconds since the epoch); writing it with
    \<^verbatim>\<open>toISOString\<close> and reading it back with \<^verbatim>\<open>new Date\<close> is the identity, so a stored
    document and the record read from it have the same type;
  \<^item> every \<^verbatim>\<open>new Date()\<close> of the source is a clock value handed to the function;
  \<^item> a Firestore collection is a map from document ids to documents; \<^verbatim>\<open>getDoc\<close> is lookup,
    \<^verbatim>\<open>setDoc\<close> replaces the document, \<^verbatim>\<open>updateDoc\<close> overwrites the listed fields only.
    Rejections of the store itself (network, permissions) are outside the model.
\<close>

type_synonym timestamp = nat

type_synonym 'd collection = "string \<rightharpoonup> 'd"

subsection \<open>Numbers\<close>

datatype number = Num real | PosInfinity | NegInfinity | NaN

text \<open>
  The binary exponent of a positive real, \<open>\<lfloor>log 2 y\<rfloor>\<close>, found by halving or doubling; it is
  not taken below \<open>-1022\<close>, where the subnormal doubles begin. The first argument bounds the
  number of steps.
\<close>

fun expUp :: "nat \<Rightarrow> real \<Rightarrow> int" where
  "expUp 0 y = 0"
| "expUp (Suc n) y = (if y < 2 then 0 else 1 + expUp n (y / 2))"

fun expDown :: "nat \<Rightarrow> real \<Rightarrow> int" where
  "expDown 0 y = 0"
| "expDown (Suc n) y = (if 1 \<le> y then 0 else expDown n (y * 2) - 1)"

definition exponent :: "real \<Rightarrow> int" where
  "exponent y = (if 1 \<le> y then expUp 1024 y else expDown 1022 y)"

text \<open>The nearest integer, a tie going to the even one.\<close>

definition roundHalfEven :: "real \<Rightarrow> int" where
  "roundHalfEven m =
     (let f = \<lfloor>m\<rfloor>; d = m - of_int f
      in if d < 1 / 2 then f else if 1 / 2 < d then f + 1 else if even f then f else f + 1)"

text \<open>
  The double nearest to a real number: a significand of 53 bits at the exponent of the
  number, an infinity when the rounded value reaches \<open>2 ^ 1024\<close>.
\<close>

definition toDouble :: "real \<Rightarrow> number" where
  "toDouble x =
     (if x = 0 then Num 0
      else if 2 ^ 1024 \<le> \<bar>x\<bar> then (if 0 < x then PosInfinity else NegInfinity)
      else (let q = 2 powi (exponent \<bar>x\<bar> - 52);
                r = of_int (roundHalfEven (x / q)) * q
            in if 2 ^ 1024 \<le> \<bar>r\<bar> then (if 0 < x then PosInfinity else NegInfinity)
               else Num r))"

text \<open>
  The operators of the source on numbers: \<^verbatim>\<open>p / d\<close> for two finite numbers, \<^verbatim>\<open>x * c\<close> for a
  finite constant \<open>c\<close>, \<^verbatim>\<open>x + y\<close>, \<^verbatim>\<open>Math.round\<close> (the nearest integer, a tie going towards
  plus infinity) and \<^verbatim>\<open>x >= c\<close>.
\<close>

definition numDiv :: "real \<Rightarrow> real \<Rightarrow> number" where
  "numDiv p d =
     (if d = 0 then (if p = 0 then NaN else if 0 < p then PosInfinity else NegInfinity)
      else toDouble (p / d))"

fun numTimes :: "number \<Rightarrow> real \<Rightarrow> number" where
  "numTimes (Num a) c = toDouble (a * c)"
| "numTimes PosInfinity c = (if c = 0 then NaN else if 0 < c then PosInfinity else NegInfinity)"
| "numTimes NegInfinity c = (if c = 0 then NaN else if 0 < c then NegInfinity else PosInfinity)"
| "numTimes NaN c = NaN"


fun Math_round :: "number \<Rightarrow> number" where
  "Math_round (Num x) = Num (of_int \<lfloor>x + 1 / 2\<rfloor>)"
| "Math_round PosInfinity = PosInfinity"
| "Math_round NegInfinity = NegInfinity"
| "Math_round NaN = NaN"

fun numGe :: "number \<Rightarrow> real \<Rightarrow> bool" where
  "numGe (Num x) c = (c \<le> x)"
| "numGe PosInfinity c = True"
| "numGe NegInfinity c = False"
| "numGe NaN c = False"


text \<open>How far a real number is from the nearest number halfway between two integers.\<close>

definition tieDistance :: "real \<Rightarrow> real" where
  "tieDistance x = \<bar>x - of_int \<lfloor>x\<rfloor> - 1 / 2\<bar>"

subsection \<open>Watch records (\<^verbatim>\<open>types.ts\<close>)\<close>

record WatchRecord =
  w_id :: string
  w_profileId :: string
  w_laneId :: string
  w_itemId :: string
  w_lastPosition :: real
  w_duration :: real
  w_progressPercent :: number
  w_completed :: bool
  w_startedAt :: timestamp
  w_updatedAt :: timestamp
  w_completedAt :: "timestamp option"

text \<open>The document id \<^verbatim>\<open>`${profileId}_${itemId}`\<close>.\<close>

definition watchDocId :: "string \<Rightarrow> string \<Rightarrow> string" where
  "watchDocId profileId itemId = profileId @ ''_'' @ itemId"

text \<open>Lines 189 to 191 of \<^verbatim>\<open>firestore.ts\<close>.\<close>

definition calcProgressPercent :: "real \<Rightarrow> real \<Rightarrow> number" where
  "calcProgressPercent currentPosition duration =
     (if duration > 0 then Math_round (numTimes (numDiv currentPosition duration) 100)
      else Num 0)"

text \<open>
  \<^verbatim>\<open>updateWatchProgress\<close>: the new content of the \<^verbatim>\<open>watchHistory\<close> collection, the record
  returned and the \<^verbatim>\<open>newlyCompleted\<close> flag. The function has no \<^verbatim>\<open>throw\<close> and no early
  return, so the model has no error branch.
\<close>

definition updateWatchProgress ::
  "WatchRecord collection \<Rightarrow> timestamp \<Rightarrow> string \<Rightarrow> string \<Rightarrow> string \<Rightarrow> real \<Rightarrow> real
     \<Rightarrow> WatchRecord collection \<times> WatchRecord \<times> bool" where
  "updateWatchProgress db now profileId laneId itemId currentPosition duration =
     (let ident = watchDocId profileId itemId;
          progressPercent = calcProgressPercent currentPosition duration;
          completed = numGe progressPercent 90
      in case db ident of
           Some existingData \<Rightarrow>
             (let wasCompleted = (w_completed existingData \<or> False);
                  newlyCompleted = (completed \<and> \<not> wasCompleted);
                  updated = existingData
                    \<lparr> w_lastPosition := currentPosition,
                      w_duration := duration,
                      w_progressPercent := progressPercent,
                      w_completed := completed,
                      w_updatedAt := now,
                      w_completedAt :=
                        (if newlyCompleted then Some now else w_completedAt existingData) \<rparr>
              in (db(ident \<mapsto> updated),
                  \<lparr> w_id = ident, w_profileId = profileId, w_laneId = laneId, w_itemId = itemId,
                    w_lastPosition = currentPosition, w_duration = duration,
                    w_progressPercent = progressPercent, w_completed = completed,
                    w_startedAt = w_startedAt existingData, w_updatedAt = now,
                    w_completedAt =
                      (if newlyCompleted then Some now else w_completedAt existingData) \<rparr>,
                  newlyCompleted))
         | None \<Rightarrow>
             (let newlyCompleted = completed;
                  watchRecord =
                    \<lparr> w_id = ident, w_profileId = profileId, w_laneId = laneId, w_itemId = itemId,
                      w_lastPosition = currentPosition, w_duration = duration,
                      w_progressPercent = progressPercent, w_completed = completed,
                      w_startedAt = now, w_updatedAt = now,
                      w_completedAt = (if completed then Some now else None) \<rparr>
              in (db(ident \<mapsto> watchRecord), watchRecord, newlyCompleted)))"

text \<open>The document stored for a (profile, item) pair after a call.\<close>

definition storedAfter ::
  "WatchRecord collection \<Rightarrow> timestamp \<Rightarrow> string \<Rightarrow> string \<Rightarrow> string \<Rightarrow> real \<Rightarrow> real
     \<Rightarrow> WatchRecord option" where
  "storedAfter db now profileId laneId itemId currentPosition duration =
     fst (updateWatchProgress db now profileId laneId itemId currentPosition duration)
       (watchDocId profileId itemId)"

text \<open>
  A sequence of calls for one (profile, item) pair: each call carries its clock value, the
  lane id, the position and the duration.
\<close>

fun runUpdates ::
  "WatchRecord collection \<Rightarrow> string \<Rightarrow> string \<Rightarrow> (timestamp \<times> string \<times> real \<times> real) list
     \<Rightarrow> WatchRecord collection" where
  "runUpdates db profileId itemId [] = db"
| "runUpdates db profileId itemId ((now, laneId, currentPosition, duration) # calls) =
     runUpdates (fst (updateWatchProgress db now profileId laneId itemId currentPosition duration))
       profileId itemId calls"

subsection \<open>Lanes, items and badges (\<^verbatim>\<open>types.ts\<close>)\<close>

datatype ProfileRole = admin | child

record Profile =
  p_id :: string
  p_displayName :: string
  p_avatarUrl :: string
  p_role :: ProfileRole
  p_pin :: "string option"

datatype LaneCategory =
  School | Music | Fun | Creativity | Learning | Entertainment | Science | Math | Reading | Other

datatype ContentType = youtube_video | web_link | static_image

datatype ContentData =
  YouTubeData string "real option" "real option" "bool option"
| WebLinkData string "bool option" "bool option"
| StaticImageData string "string option"

record LaneItem =
  it_id :: string
  it_title :: string
  it_thumbnailUrl :: string
  it_type :: ContentType
  it_data :: ContentData

record Lane =
  l_id :: string
  l_profileId :: string
  l_title :: string
  l_category :: LaneCategory
  l_isActive :: bool
  l_sortOrder :: real

record LaneWithItems = Lane +
  l_items :: "LaneItem list"

record ActiveContent =
  ac_item :: LaneItem
  ac_laneId :: string
  ac_laneTitle :: string

datatype BadgeType =
  first_watch | lane_master | explorer | five_videos | ten_videos | twenty_five_videos

text \<open>The string a badge type is in the source, as it appears in a document id.\<close>

fun badgeTypeName :: "BadgeType \<Rightarrow> string" where
  "badgeTypeName first_watch = ''first_watch''"
| "badgeTypeName lane_master = ''lane_master''"
| "badgeTypeName explorer = ''explorer''"
| "badgeTypeName five_videos = ''five_videos''"
| "badgeTypeName ten_videos = ''ten_videos''"
| "badgeTypeName twenty_five_videos = ''twenty_five_videos''"

type_synonym metadata = "(string \<times> string) list"

record EarnedBadge =
  b_id :: string
  b_profileId :: string
  b_badgeType :: BadgeType
  b_earnedAt :: timestamp
  b_metadata :: "metadata option"

subsection \<open>Badge engine (\<^verbatim>\<open>firestore.ts\<close>, lines 360 to 462)\<close>

definition badgeDocId :: "string \<Rightarrow> BadgeType \<Rightarrow> string" where
  "badgeDocId profileId badgeType = profileId @ ''_'' @ badgeTypeName badgeType"

text \<open>
  \<^verbatim>\<open>awardBadge\<close>: \<open>None\<close> is the source's \<^verbatim>\<open>null\<close> (already earned); nothing is written then.
\<close>

definition awardBadge ::
  "EarnedBadge collection \<Rightarrow> timestamp \<Rightarrow> string \<Rightarrow> BadgeType \<Rightarrow> metadata option
     \<Rightarrow> EarnedBadge collection \<times> EarnedBadge option" where
  "awardBadge db now profileId badgeType metadata =
     (let ident = badgeDocId profileId badgeType
      in case db ident of
           Some existing \<Rightarrow> (db, None)
         | None \<Rightarrow>
             (let badge = \<lparr> b_id = ident, b_profileId = profileId, b_badgeType = badgeType,
                            b_earnedAt = now, b_metadata = metadata \<rparr>
              in (db(ident \<mapsto> badge), Some badge)))"

text \<open>
  The two lines that follow every test in \<^verbatim>\<open>checkAndAwardBadges\<close>:
  \<^verbatim>\<open>const badge = await awardBadge(...); if (badge) newBadges.push(badge);\<close>
  The state threaded through the function is the collection and the \<^verbatim>\<open>newBadges\<close> array.
\<close>

definition awardAndPush ::
  "EarnedBadge collection \<times> EarnedBadge list \<Rightarrow> timestamp \<Rightarrow> string \<Rightarrow> BadgeType
     \<Rightarrow> metadata option \<Rightarrow> EarnedBadge collection \<times> EarnedBadge list" where
  "awardAndPush st now profileId badgeType metadata =
     (case awardBadge (fst st) now profileId badgeType metadata of
        (db', Some badge) \<Rightarrow> (db', snd st @ [badge])
      | (db', None) \<Rightarrow> (db', snd st))"

text \<open>The lane master loop, with its \<^verbatim>\<open>break\<close> after the first fully completed lane.\<close>

fun laneMasterLoop ::
  "EarnedBadge collection \<times> EarnedBadge list \<Rightarrow> timestamp \<Rightarrow> string \<Rightarrow> string set
     \<Rightarrow> LaneWithItems list \<Rightarrow> EarnedBadge collection \<times> EarnedBadge list" where
  "laneMasterLoop st now profileId completedItemIds [] = st"
| "laneMasterLoop st now profileId completedItemIds (lane # lanes) =
     (if length (l_items lane) > 0 then
        (let allCompleted = list_all (\<lambda>item. it_id item \<in> completedItemIds) (l_items lane)
         in if allCompleted then
              awardAndPush st now profileId lane_master
                (Some [(''laneId'', l_id lane), (''laneTitle'', l_title lane)])
            else laneMasterLoop st now profileId completedItemIds lanes)
      else laneMasterLoop st now profileId completedItemIds lanes)"

text \<open>The explorer loop: the categories of the lanes that completed records point to.\<close>

fun categoriesLoop ::
  "LaneWithItems list \<Rightarrow> LaneCategory set \<Rightarrow> WatchRecord list \<Rightarrow> LaneCategory set" where
  "categoriesLoop lanes categoriesCompleted [] = categoriesCompleted"
| "categoriesLoop lanes categoriesCompleted (record # records) =
     (case find (\<lambda>l. l_id l = w_laneId record) lanes of
        Some lane \<Rightarrow> categoriesLoop lanes (insert (l_category lane) categoriesCompleted) records
      | None \<Rightarrow> categoriesLoop lanes categoriesCompleted records)"

text \<open>
  \<^verbatim>\<open>checkAndAwardBadges\<close>. Every \<^verbatim>\<open>awardBadge\<close> reads the clock itself; \<open>clock\<close> gives the
  value read by the award of each badge type.
\<close>

definition checkAndAwardBadges ::
  "EarnedBadge collection \<Rightarrow> (BadgeType \<Rightarrow> timestamp) \<Rightarrow> string \<Rightarrow> WatchRecord list
     \<Rightarrow> LaneWithItems list \<Rightarrow> EarnedBadge collection \<times> EarnedBadge list" where
  "checkAndAwardBadges db clock profileId watchHistory lanes =
     (let completedRecords = filter w_completed watchHistory;
          totalCompleted = length completedRecords;
          completedItemIds = set (map w_itemId completedRecords);
          st0 = (db, []);
          st1 = (if totalCompleted \<ge> 1
                 then awardAndPush st0 (clock first_watch) profileId first_watch None else st0);
          st2 = (if totalCompleted \<ge> 5
                 then awardAndPush st1 (clock five_videos) profileId five_videos None else st1);
          st3 = (if totalCompleted \<ge> 10
                 then awardAndPush st2 (clock ten_videos) profileId ten_videos None else st2);
          st4 = (if totalCompleted \<ge> 25
                 then awardAndPush st3 (clock twenty_five_videos) profileId twenty_five_videos None
                 else st3);
          st5 = laneMasterLoop st4 (clock lane_master) profileId completedItemIds lanes;
          categoriesCompleted = categoriesLoop lanes {} completedRecords;
          st6 = (if card categoriesCompleted \<ge> 4
                 then awardAndPush st5 (clock explorer) profileId explorer None else st5)
      in st6)"

subsection \<open>Saving progress (\<^verbatim>\<open>progressStore.ts\<close> and the content modal)\<close>

text \<open>
  The two collections and the three atoms \<^verbatim>\<open>$watchHistory\<close>, \<^verbatim>\<open>$earnedBadges\<close> and
  \<^verbatim>\<open>$newBadges\<close> of the progress store.
\<close>

record ProgressState =
  watchHistoryDb :: "WatchRecord collection"
  earnedBadgesDb :: "EarnedBadge collection"
  watchHistoryAtom :: "WatchRecord list"
  earnedBadgesAtom :: "EarnedBadge list"
  newBadgesAtom :: "EarnedBadge list"

text \<open>\<^verbatim>\<open>Array.prototype.findIndex\<close>; \<open>None\<close> is the source's \<open>-1\<close>.\<close>

fun findIndex :: "('a \<Rightarrow> bool) \<Rightarrow> 'a list \<Rightarrow> nat option" where
  "findIndex P [] = None"
| "findIndex P (x # xs) = (if P x then Some 0 else map_option Suc (findIndex P xs))"

text \<open>
  \<^verbatim>\<open>saveWatchProgress\<close>. Its \<^verbatim>\<open>catch\<close> branch handles rejections of the store, which the
  model does not have.
\<close>

definition saveWatchProgress ::
  "ProgressState \<Rightarrow> timestamp \<Rightarrow> (BadgeType \<Rightarrow> timestamp) \<Rightarrow> string \<Rightarrow> string \<Rightarrow> string
     \<Rightarrow> real \<Rightarrow> real \<Rightarrow> LaneWithItems list \<Rightarrow> ProgressState \<times> EarnedBadge list" where
  "saveWatchProgress st now clock profileId laneId itemId currentPosition duration lanes =
     (case updateWatchProgress (watchHistoryDb st) now profileId laneId itemId
             currentPosition duration of
        (db', record, newlyCompleted) \<Rightarrow>
          (let currentHistory = watchHistoryAtom st;
               updatedHistory =
                 (case findIndex (\<lambda>w. w_itemId w = itemId) currentHistory of
                    Some existingIndex \<Rightarrow> currentHistory[existingIndex := record]
                  | None \<Rightarrow> currentHistory @ [record]);
               st1 = st\<lparr> watchHistoryDb := db', watchHistoryAtom := updatedHistory \<rparr>
           in if newlyCompleted then
                (case checkAndAwardBadges (earnedBadgesDb st1) clock profileId updatedHistory
                        lanes of
                   (badgeDb', newBadges) \<Rightarrow>
                     (let st2 = st1\<lparr> earnedBadgesDb := badgeDb' \<rparr>;
                          st3 = (if length newBadges > 0
                                 then st2\<lparr> earnedBadgesAtom := earnedBadgesAtom st2 @ newBadges,
                                           newBadgesAtom := newBadges \<rparr>
                                 else st2)
                      in (st3, newBadges)))
              else (st1, [])))"

text \<open>
  \<^verbatim>\<open>saveProgress\<close> of the content modal, the only caller of \<^verbatim>\<open>saveWatchProgress\<close>:
  \<open>currentTime\<close> and \<open>duration\<close> are the component's state, \<open>position\<close> and \<open>dur\<close> the
  optional arguments.
\<close>

definition saveProgress ::
  "ProgressState \<Rightarrow> ActiveContent option \<Rightarrow> Profile option \<Rightarrow> real \<Rightarrow> real \<Rightarrow> timestamp
     \<Rightarrow> (BadgeType \<Rightarrow> timestamp) \<Rightarrow> LaneWithItems list \<Rightarrow> real option \<Rightarrow> real option
     \<Rightarrow> ProgressState" where
  "saveProgress st activeContent currentProfile currentTime duration now clock lanes position dur =
     (case (activeContent, currentProfile) of
        (Some content, Some profile) \<Rightarrow>
          if p_role profile \<noteq> child then st
          else
            (let item = ac_item content;
                 laneId = ac_laneId content;
                 pos = (case position of Some x \<Rightarrow> x | None \<Rightarrow> currentTime);
                 totalDur = (case dur of Some x \<Rightarrow> x | None \<Rightarrow> duration)
             in if totalDur \<le> 0 then st
                else fst (saveWatchProgress st now clock (p_id profile) laneId (it_id item)
                            pos totalDur lanes))
      | _ \<Rightarrow> st)"

subsection \<open>The badge table of the specification\<close>

text \<open>
  The triggers as the specification words them, over the completed records of the watch
  history: a count of completed records, a lane with at least one item whose every item has
  a completed record, and the categories of the lanes of completed records.
\<close>

definition spec_laneComplete :: "WatchRecord list \<Rightarrow> LaneWithItems \<Rightarrow> bool" where
  "spec_laneComplete watchHistory lane \<longleftrightarrow>
     l_items lane \<noteq> [] \<and>
     list_all (\<lambda>item. list_ex (\<lambda>w. w_completed w \<and> w_itemId w = it_id item) watchHistory)
       (l_items lane)"

definition spec_categories :: "WatchRecord list \<Rightarrow> LaneWithItems list \<Rightarrow> LaneCategory set" where
  "spec_categories watchHistory lanes =
     set (map l_category
       (List.map_filter (\<lambda>w. find (\<lambda>l. l_id l = w_laneId w) lanes)
          (filter w_completed watchHistory)))"

fun spec_trigger :: "BadgeType \<Rightarrow> WatchRecord list \<Rightarrow> LaneWithItems list \<Rightarrow> bool" where
  "spec_trigger first_watch watchHistory lanes = (length (filter w_completed watchHistory) \<ge> 1)"
| "spec_trigger five_videos watchHistory lanes = (length (filter w_completed watchHistory) \<ge> 5)"
| "spec_trigger ten_videos watchHistory lanes = (length (filter w_completed watchHistory) \<ge> 10)"
| "spec_trigger twenty_five_videos watchHistory lanes =
     (length (filter w_completed watchHistory) \<ge> 25)"
| "spec_trigger lane_master watchHistory lanes = list_ex (spec_laneComplete watchHistory) lanes"
| "spec_trigger explorer watchHistory lanes = (card (spec_categories watchHistory lanes) \<ge> 4)"

text \<open>The order in which \<^verbatim>\<open>checkAndAwardBadges\<close> attempts the badges.\<close>

definition badgeOrder :: "BadgeType list" where
  "badgeOrder = [first_watch, five_videos, ten_videos, twenty_five_videos, lane_master, explorer]"

text \<open>The document \<^verbatim>\<open>awardBadge\<close> writes and returns when the badge is not held yet.\<close>

definition newBadge :: "timestamp \<Rightarrow> string \<Rightarrow> BadgeType \<Rightarrow> metadata option \<Rightarrow> EarnedBadge" where
  "newBadge now p bt md = \<lparr> b_id = badgeDocId p bt, b_profileId = p, b_badgeType = bt,
                            b_earnedAt = now, b_metadata = md \<rparr>"

text \<open>
  The metadata the badge table gives an award: the first lane of the catalogue that is
  complete, for the lane master badge, and none for the others.
\<close>

definition spec_metadata ::
  "BadgeType \<Rightarrow> WatchRecord list \<Rightarrow> LaneWithItems list \<Rightarrow> metadata option" where
  "spec_metadata bt h lanes =
     (if bt = lane_master
      then map_option (\<lambda>lane. [(''laneId'', l_id lane), (''laneTitle'', l_title lane)])
             (find (spec_laneComplete h) lanes)
      else None)"

text \<open>
  The evaluation as a table walk: for each badge type in order, an award attempt when its
  condition holds. \<^verbatim>\<open>checkAndAwardBadges\<close> is shown below to be this walk over \<open>badgeOrder\<close>
  with the conditions of the badge table.
\<close>

fun awardSteps ::
  "EarnedBadge collection \<times> EarnedBadge list \<Rightarrow> string \<Rightarrow> (BadgeType \<Rightarrow> bool)
     \<Rightarrow> (BadgeType \<Rightarrow> timestamp) \<Rightarrow> (BadgeType \<Rightarrow> metadata option) \<Rightarrow> BadgeType list
     \<Rightarrow> EarnedBadge collection \<times> EarnedBadge list" where
  "awardSteps st p cond clock md [] = st"
| "awardSteps st p cond clock md (bt # bts) =
     awardSteps (if cond bt then awardAndPush st (clock bt) p bt (md bt) else st)
       p cond clock md bts"

text \<open>
  A store is well keyed when every document sits under the id built from its own profile
  and badge type, as every document written by \<^verbatim>\<open>awardBadge\<close> does.
\<close>

definition wellKeyed :: "EarnedBadge collection \<Rightarrow> bool" where
  "wellKeyed db \<longleftrightarrow>
     (\<forall>k d. db k = Some d \<longrightarrow> k = badgeDocId (b_profileId d) (b_badgeType d) \<and> b_id d = k)"

text \<open>The ids of the documents held for a profile and a badge type.\<close>

definition badgeRecords :: "EarnedBadge collection \<Rightarrow> string \<Rightarrow> BadgeType \<Rightarrow> string set" where
  "badgeRecords db profileId badgeType =
     {k. \<exists>d. db k = Some d \<and> b_profileId d = profileId \<and> b_badgeType d = badgeType}"

subsection \<open>Errors\<close>

text \<open>
  What the modelled code can throw: an \<^verbatim>\<open>Error\<close> with its message, the \<^verbatim>\<open>SyntaxError\<close> of
  \<^verbatim>\<open>JSON.parse\<close>, and the \<^verbatim>\<open>TypeError\<close> of a property read on \<^verbatim>\<open>undefined\<close>.
\<close>

datatype js_error = JsError string | SyntaxError string | TypeError string

subsection \<open>Durations (\<^verbatim>\<open>youtube.ts\<close>)\<close>









text \<open>\<^verbatim>\<open>Number.prototype.toString\<close> on a natural number, and \<^verbatim>\<open>padStart(2, '0')\<close>.\<close>

function natToString :: "nat \<Rightarrow> string" where
  "natToString n =
     (if n < 10 then [char_of (48 + n)]
      else natToString (n div 10) @ [char_of (48 + n mod 10)])"
  by pat_completeness auto
termination
  by (relation "measure (\<lambda>n. n)") auto

definition padStart2 :: "string \<Rightarrow> string" where
  "padStart2 s = replicate (2 - length s) CHR ''0'' @ s"

definition formatDuration :: "nat \<Rightarrow> string" where
  "formatDuration seconds =
     (let hours = seconds div 3600;
          minutes = (seconds mod 3600) div 60;
          secs = seconds mod 60
      in if hours > 0
         then natToString hours @ '':'' @ padStart2 (natToString minutes) @ '':'' @
              padStart2 (natToString secs)
         else natToString minutes @ '':'' @ padStart2 (natToString secs))"




text \<open>\<open>sub\<close> occurs somewhere in \<open>s\<close>.\<close>

fun occursIn :: "string \<Rightarrow> string \<Rightarrow> bool" where
  "occursIn sub [] = (sub = [])"
| "occursIn sub (c # cs) = (take (length sub) (c # cs) = sub \<or> occursIn sub cs)"

subsection \<open>Structured generation (the Gemini provider)\<close>

text \<open>
  Strings are lists of 8-bit code units; \<^verbatim>\<open>\s\<close> is, among them, tab, line feed, vertical
  tab, form feed, carriage return, space and the no-break space.
\<close>

definition isSpace :: "char \<Rightarrow> bool" where
  "isSpace c \<longleftrightarrow> of_char c \<in> {9, 10, 11, 12, 13, 32, 160 :: nat}"

definition fence :: string where
  "fence = [CHR 0x60, CHR 0x60, CHR 0x60]"

text \<open>The input matches \<^verbatim>\<open>\s*```\<close> at its head.\<close>

definition closesHere :: "string \<Rightarrow> bool" where
  "closesHere s \<longleftrightarrow> take 3 (dropWhile isSpace s) = fence"

text \<open>
  The lazy group \<^verbatim>\<open>([\s\S]*?)\<close> followed by \<^verbatim>\<open>\s*```\<close>: the shortest prefix after which the
  closing part matches.
\<close>

fun lazyCapture :: "string \<Rightarrow> string option" where
  "lazyCapture [] = None"
| "lazyCapture (c # cs) =
     (if closesHere (c # cs) then Some [] else map_option ((#) c) (lazyCapture cs))"

text \<open>
  The pattern \<^verbatim>\<open>```(?:json)?\s*([\s\S]*?)\s*```\<close> tried at the head of the input. The
  optional \<^verbatim>\<open>json\<close> and the first \<^verbatim>\<open>\s*\<close> are greedy; what they could give back holds no
  backquote, so giving it back never turns a failure into a match.
\<close>

definition matchFence :: "string \<Rightarrow> string option" where
  "matchFence s =
     (if take 3 s = fence then
        (let r1 = drop 3 s;
             r2 = (if take 4 r1 = ''json'' then drop 4 r1 else r1)
         in lazyCapture (dropWhile isSpace r2))
      else None)"

text \<open>\<^verbatim>\<open>text.match(...)\<close>: group 1 of the leftmost match; \<open>None\<close> is \<^verbatim>\<open>null\<close>.\<close>

fun jsonMatch :: "string \<Rightarrow> string option" where
  "jsonMatch [] = None"
| "jsonMatch (c # cs) =
     (case matchFence (c # cs) of Some body \<Rightarrow> Some body | None \<Rightarrow> jsonMatch cs)"

text \<open>
  The parsing part of \<^verbatim>\<open>generateJSON\<close>, from the response text on. \<^verbatim>\<open>JSON.parse\<close> is a
  parameter: \<open>None\<close> is its \<^verbatim>\<open>SyntaxError\<close>. A failure of the second \<^verbatim>\<open>JSON.parse\<close> is not
  caught, so it leaves the function as it is.
\<close>

definition generateJSON :: "(string \<Rightarrow> 'a option) \<Rightarrow> string \<Rightarrow> js_error + 'a" where
  "generateJSON JSON_parse text =
     (case JSON_parse text of
        Some v \<Rightarrow> Inr v
      | None \<Rightarrow>
          (case jsonMatch text of
             Some body \<Rightarrow>
               (case JSON_parse body of
                  Some v \<Rightarrow> Inr v
                | None \<Rightarrow> Inl (SyntaxError body))
           | None \<Rightarrow>
               Inl (JsError (''Failed to parse AI response as JSON: '' @ take 200 text))))"

text \<open>
  A response wrapped in a fenced code block, as the specification words it: some text in
  which no fence starts, the opening fence with or without the \<^verbatim>\<open>json\<close> tag, white space,
  the body, white space, the closing fence, and any text after it. The body is given
  trimmed and, where there is no tag, does not start with the letter of the tag.
\<close>

definition spec_wrapped :: "string \<Rightarrow> string \<Rightarrow> bool" where
  "spec_wrapped text body \<longleftrightarrow>
     (\<exists>pre tag ws1 ws2 post.
        text = pre @ fence @ tag @ ws1 @ body @ ws2 @ fence @ post \<and>
        \<not> occursIn fence (pre @ [CHR 0x60, CHR 0x60]) \<and>
        (tag = [] \<and> hd body \<noteq> CHR ''j'' \<or> tag = ''json'') \<and>
        list_all isSpace ws1 \<and> list_all isSpace ws2 \<and>
        body \<noteq> [] \<and> \<not> isSpace (hd body) \<and> \<not> isSpace (last body))"

subsection \<open>Lane generation (\<^verbatim>\<open>laneGenerator.ts\<close>)\<close>

record YouTubeVideoDetails =
  v_videoId :: string
  v_title :: string
  v_description :: string
  v_channelTitle :: string
  v_channelId :: string
  v_thumbnailUrl :: string
  v_duration :: string
  v_durationSeconds :: nat
  v_viewCount :: nat
  v_likeCount :: nat
  v_tags :: "string list option"

record YouTubeSearchOptions =
  o_maxResults :: "nat option"
  o_safeSearch :: "string option"
  o_videoDuration :: "string option"
  o_relevanceLanguage :: "string option"
  o_type :: "string option"
  o_order :: "string option"

record GenerateLaneRequest =
  r_prompt :: string
  r_targetAge :: "real option"
  r_maxVideos :: "int option"
  r_profileName :: "string option"

record Plan =
  pl_title :: string
  pl_description :: string
  pl_category :: string
  pl_searchQueries :: "string list"

record Selection =
  s_index :: real
  s_relevanceScore :: real
  s_reason :: string

record GeneratedItem =
  g_title :: string
  g_thumbnailUrl :: string
  g_type :: ContentType
  g_videoId :: string
  g_loop :: bool
  g_relevanceScore :: real
  g_reason :: string
  g_duration :: string
  g_channelTitle :: string

record GeneratedLane =
  gl_title :: string
  gl_description :: string
  gl_category :: string
  gl_items :: "GeneratedItem list"

text \<open>The options every search of the pipeline is made with.\<close>

definition searchOptions :: YouTubeSearchOptions where
  "searchOptions =
     \<lparr> o_maxResults = Some 5, o_safeSearch = Some ''strict'', o_videoDuration = Some ''medium'',
       o_relevanceLanguage = None, o_type = None, o_order = Some ''relevance'' \<rparr>"

type_synonym searchService = "string \<Rightarrow> YouTubeSearchOptions \<Rightarrow> js_error + YouTubeVideoDetails list"

text \<open>The inner loop of the search step: a video is pushed when its id has not been seen.\<close>

fun addVideos ::
  "YouTubeVideoDetails list \<times> string set \<Rightarrow> YouTubeVideoDetails list
     \<Rightarrow> YouTubeVideoDetails list \<times> string set" where
  "addVideos st [] = st"
| "addVideos (allVideos, seenVideoIds) (video # videos) =
     (if v_videoId video \<notin> seenVideoIds
      then addVideos (allVideos @ [video], insert (v_videoId video) seenVideoIds) videos
      else addVideos (allVideos, seenVideoIds) videos)"

text \<open>
  The outer loop with its \<^verbatim>\<open>try\<close> and \<^verbatim>\<open>catch\<close>: \<open>searchWithDetails\<close> is the answer of the
  search service to a query, an error when the call throws.
\<close>

fun searchLoop ::
  "searchService \<Rightarrow> YouTubeVideoDetails list \<times> string set \<Rightarrow> string list
     \<Rightarrow> YouTubeVideoDetails list \<times> string set" where
  "searchLoop searchWithDetails st [] = st"
| "searchLoop searchWithDetails st (query # queries) =
     (case searchWithDetails (query @ '' for kids educational'') searchOptions of
        Inr videos \<Rightarrow> searchLoop searchWithDetails (addVideos st videos) queries
      | Inl error \<Rightarrow> searchLoop searchWithDetails st queries)"

definition searchStep :: "searchService \<Rightarrow> string list \<Rightarrow> YouTubeVideoDetails list" where
  "searchStep searchWithDetails searchQueries =
     fst (searchLoop searchWithDetails ([], {}) (take 4 searchQueries))"

text \<open>
  \<^verbatim>\<open>xs[i]\<close> for a number \<open>i\<close>: the element when \<open>i\<close> is an integer index of the array,
  \<^verbatim>\<open>undefined\<close> (\<open>None\<close>) otherwise.
\<close>

definition arrayAt :: "'a list \<Rightarrow> real \<Rightarrow> 'a option" where
  "arrayAt xs i =
     (if of_int \<lfloor>i\<rfloor> = i \<and> 0 \<le> i \<and> i < real (length xs) then Some (xs ! nat \<lfloor>i\<rfloor>) else None)"

text \<open>\<^verbatim>\<open>xs.slice(0, n)\<close>: a negative \<open>n\<close> counts from the end.\<close>

definition slice0 :: "int \<Rightarrow> 'a list \<Rightarrow> 'a list" where
  "slice0 n xs = (if n < 0 then take (nat (int (length xs) + n)) xs else take (nat n) xs)"

text \<open>
  The body of the \<^verbatim>\<open>map\<close> of step 4: reading \<^verbatim>\<open>video.title\<close> throws a \<^verbatim>\<open>TypeError\<close> when
  \<^verbatim>\<open>allVideos[selection.index - 1]\<close> is \<^verbatim>\<open>undefined\<close>.
\<close>

definition buildItem :: "YouTubeVideoDetails list \<Rightarrow> Selection \<Rightarrow> js_error + GeneratedItem" where
  "buildItem allVideos selection =
     (case arrayAt allVideos (s_index selection - 1) of
        None \<Rightarrow> Inl (TypeError ''Cannot read properties of undefined'')
      | Some video \<Rightarrow>
          Inr \<lparr> g_title = v_title video, g_thumbnailUrl = v_thumbnailUrl video,
                g_type = youtube_video, g_videoId = v_videoId video, g_loop = False,
                g_relevanceScore = s_relevanceScore selection, g_reason = s_reason selection,
                g_duration = formatDuration (v_durationSeconds video),
                g_channelTitle = v_channelTitle video \<rparr>)"

fun mapItems :: "YouTubeVideoDetails list \<Rightarrow> Selection list \<Rightarrow> js_error + GeneratedItem list" where
  "mapItems allVideos [] = Inr []"
| "mapItems allVideos (selection # selections) =
     (case buildItem allVideos selection of
        Inl e \<Rightarrow> Inl e
      | Inr item \<Rightarrow>
          (case mapItems allVideos selections of
             Inl e \<Rightarrow> Inl e
           | Inr items \<Rightarrow> Inr (item # items)))"

text \<open>The selections that pass the bounds test of step 4.\<close>

definition inBounds :: "YouTubeVideoDetails list \<Rightarrow> Selection \<Rightarrow> bool" where
  "inBounds allVideos s \<longleftrightarrow> s_index s > 0 \<and> s_index s \<le> real (length allVideos)"

definition selectItems ::
  "YouTubeVideoDetails list \<Rightarrow> int \<Rightarrow> Selection list \<Rightarrow> js_error + GeneratedItem list" where
  "selectItems allVideos maxVideos selectedVideos =
     mapItems allVideos (slice0 maxVideos (filter (inBounds allVideos) selectedVideos))"

text \<open>
  \<^verbatim>\<open>generate\<close>. The two calls of \<^verbatim>\<open>generateJSON\<close> are parameters: \<open>planner\<close> is the outcome of
  the planning call for the request, \<open>ranker\<close> the outcome of the ranking call for the
  request and the candidates. \<^verbatim>\<open>Array.prototype.sort\<close> is stable, and so is \<open>sort_key\<close>;
  the comparator orders by falling score.
\<close>

definition generate ::
  "(GenerateLaneRequest \<Rightarrow> js_error + Plan)
     \<Rightarrow> (GenerateLaneRequest \<Rightarrow> YouTubeVideoDetails list \<Rightarrow> js_error + Selection list)
     \<Rightarrow> searchService \<Rightarrow> GenerateLaneRequest \<Rightarrow> js_error + GeneratedLane" where
  "generate planner ranker searchWithDetails request =
     (let maxVideos = (case r_maxVideos request of Some n \<Rightarrow> n | None \<Rightarrow> 8)
      in case planner request of
           Inl e \<Rightarrow> Inl e
         | Inr plan \<Rightarrow>
             (let allVideos = searchStep searchWithDetails (pl_searchQueries plan)
              in case ranker request allVideos of
                   Inl e \<Rightarrow> Inl e
                 | Inr selectedVideos \<Rightarrow>
                     (case selectItems allVideos maxVideos selectedVideos of
                        Inl e \<Rightarrow> Inl e
                      | Inr selectedItems \<Rightarrow>
                          Inr \<lparr> gl_title = pl_title plan, gl_description = pl_description plan,
                                gl_category = pl_category plan,
                                gl_items = sort_key (\<lambda>item. - g_relevanceScore item)
                                             selectedItems \<rparr>)))"

text \<open>
  The deduplication of the specification: every video whose id occurred earlier is
  dropped, the others keep their order. What a query contributes: its results, or nothing
  when its call failed.
\<close>

function spec_firstSeen :: "YouTubeVideoDetails list \<Rightarrow> YouTubeVideoDetails list" where
  "spec_firstSeen [] = []"
| "spec_firstSeen (v # vs) = v # spec_firstSeen (filter (\<lambda>w. v_videoId w \<noteq> v_videoId v) vs)"
  by pat_completeness auto
termination
  by (relation "measure length") (auto simp add: less_Suc_eq_le)

definition spec_contribution :: "searchService \<Rightarrow> string \<Rightarrow> YouTubeVideoDetails list" where
  "spec_contribution searchWithDetails query =
     (case searchWithDetails (query @ '' for kids educational'') searchOptions of
        Inr videos \<Rightarrow> videos
      | Inl error \<Rightarrow> [])"

text \<open>
  The item of a selection as the specification has it: the candidate at the selection's
  1-based index, with the selection's score and reason.
\<close>

definition spec_itemAt :: "YouTubeVideoDetails list \<Rightarrow> Selection \<Rightarrow> GeneratedItem" where
  "spec_itemAt allVideos selection =
     (let video = allVideos ! (nat \<lfloor>s_index selection\<rfloor> - 1)
      in \<lparr> g_title = v_title video, g_thumbnailUrl = v_thumbnailUrl video,
           g_type = youtube_video, g_videoId = v_videoId video, g_loop = False,
           g_relevanceScore = s_relevanceScore selection, g_reason = s_reason selection,
           g_duration = formatDuration (v_durationSeconds video),
           g_channelTitle = v_channelTitle video \<rparr>)"

section \<open>Double arithmetic\<close>

lemma expDown_numeral:
  "expDown (numeral k) y = (if 1 \<le> y then 0 else expDown (pred_numeral k) (y * 2) - 1)"
  by (simp add: numeral_eq_Suc)

lemma expUp_numeral:
  "expUp (numeral k) y = (if y < 2 then 0 else 1 + expUp (pred_numeral k) (y / 2))"
  by (simp add: numeral_eq_Suc)

lemma div_powi: "x / (2::real) powi n = (if 0 \<le> n then x / 2 ^ nat n else x * 2 ^ nat (- n))"
  by (simp add: power_int_def field_simps)

lemma mult_powi: "y * (2::real) powi n = (if 0 \<le> n then y * 2 ^ nat n else y / 2 ^ nat (- n))"
  by (simp add: power_int_def field_simps)

lemmas toDouble_eval = toDouble_def exponent_def roundHalfEven_def div_powi mult_powi Let_def
  expDown_numeral expUp_numeral

lemma roundHalfEven_error: "\<bar>of_int (roundHalfEven m) - m\<bar> \<le> 1 / 2"
proof -
  have f: "of_int \<lfloor>m\<rfloor> \<le> m" "m < of_int \<lfloor>m\<rfloor> + 1" by linarith+
  show ?thesis
  proof (cases "m - of_int \<lfloor>m\<rfloor> < 1 / 2")
    case True
    with f show ?thesis by (simp add: roundHalfEven_def Let_def)
  next
    case False
    note nlt = False
    show ?thesis
    proof (cases "1 / 2 < m - of_int \<lfloor>m\<rfloor>")
      case True
      with f nlt show ?thesis by (simp add: roundHalfEven_def Let_def)
    next
      case False
      with nlt have "m - of_int \<lfloor>m\<rfloor> = 1 / 2" by simp
      then show ?thesis by (simp add: roundHalfEven_def Let_def)
    qed
  qed
qed


lemma roundHalfEven_nonneg:
  assumes "0 \<le> m"
  shows "0 \<le> roundHalfEven m"
proof -
  have "0 \<le> \<lfloor>m\<rfloor>" using assms by simp
  then show ?thesis by (simp add: roundHalfEven_def Let_def)
qed

lemma expUp_spec: "1 \<le> y \<Longrightarrow> 0 \<le> expUp n y \<and> expUp n y \<le> int n \<and> (2::real) powi (expUp n y) \<le> y"
proof (induction n arbitrary: y)
  case 0
  then show ?case by simp
next
  case (Suc n)
  show ?case
  proof (cases "y < 2")
    case True
    with Suc.prems show ?thesis by simp
  next
    case False
    then have "1 \<le> y / 2" by simp
    from Suc.IH [OF this] have ih: "0 \<le> expUp n (y / 2)" "expUp n (y / 2) \<le> int n"
      "2 powi (expUp n (y / 2)) \<le> y / 2" by simp_all
    have "(2::real) powi (1 + expUp n (y / 2)) = 2 * 2 powi (expUp n (y / 2))"
      by (simp add: power_int_add)
    with ih False show ?thesis by simp
  qed
qed

lemma expDown_spec:
  "0 < y \<Longrightarrow> - int n \<le> expDown n y \<and> expDown n y \<le> 0 \<and>
     (expDown n y = - int n \<or> (2::real) powi (expDown n y) \<le> y)"
proof (induction n arbitrary: y)
  case 0
  then show ?case by simp
next
  case (Suc n)
  show ?case
  proof (cases "1 \<le> y")
    case True
    then show ?thesis by simp
  next
    case False
    from Suc.prems have "0 < y * 2" by simp
    from Suc.IH [OF this] have ih: "- int n \<le> expDown n (y * 2)" "expDown n (y * 2) \<le> 0"
      "expDown n (y * 2) = - int n \<or> 2 powi (expDown n (y * 2)) \<le> y * 2" by simp_all
    have "(2::real) powi (expDown n (y * 2) - 1) = 2 powi (expDown n (y * 2)) / 2"
      by (simp add: power_int_diff)
    with ih False show ?thesis by auto
  qed
qed

lemma exponent_spec:
  assumes "0 < y" "y < 2 ^ 1024"
  shows "- 1022 \<le> exponent y" "exponent y \<le> 1023"
    "exponent y = - 1022 \<or> (2::real) powi (exponent y) \<le> y"
proof -
  show "- 1022 \<le> exponent y"
    using expUp_spec [of y 1024] expDown_spec [of y 1022] assms by (auto simp add: exponent_def)
  show "exponent y = - 1022 \<or> (2::real) powi (exponent y) \<le> y"
    using expUp_spec [of y 1024] expDown_spec [of y 1022] assms by (auto simp add: exponent_def)
  show "exponent y \<le> 1023"
  proof (cases "1 \<le> y")
    case True
    from expUp_spec [OF True, of 1024] have le: "(2::real) powi (expUp 1024 y) \<le> y" by simp
    have "expUp 1024 y < 1024"
    proof (rule ccontr)
      assume "\<not> expUp 1024 y < 1024"
      then have "1024 \<le> expUp 1024 y" by simp
      then have "(2::real) powi 1024 \<le> 2 powi (expUp 1024 y)"
        by (intro power_int_increasing) simp_all
      then have "(2::real) ^ 1024 \<le> 2 powi (expUp 1024 y)" by simp
      with le assms(2) show False by linarith
    qed
    with True show ?thesis by (simp add: exponent_def)
  next
    case False
    with expDown_spec [of y 1022] assms show ?thesis by (simp add: exponent_def)
  qed
qed

lemma toDouble_bound:
  assumes "\<bar>x\<bar> \<le> 2 ^ 1023"
  shows "\<exists>r. toDouble x = Num r \<and> \<bar>r - x\<bar> \<le> \<bar>x\<bar> / 2 ^ 53 + 2 powi (- 1075) \<and>
           (0 \<le> x \<longrightarrow> 0 \<le> r)"
proof (cases "x = 0")
  case True
  then show ?thesis by (simp add: toDouble_def)
next
  case False
  define y where "y = \<bar>x\<bar>"
  define e where "e = exponent y"
  define q :: real where "q = 2 powi (e - 52)"
  define r where "r = of_int (roundHalfEven (x / q)) * q"
  have y: "0 < y" "y < 2 ^ 1024" "y \<le> 2 ^ 1023"
    using False assms by (simp_all add: y_def) 
  note es = exponent_spec [OF y(1,2), folded e_def]
  have q: "0 < q" by (simp add: q_def)
  have "r - x = (of_int (roundHalfEven (x / q)) - x / q) * q"
    using q by (simp add: r_def left_diff_distrib)
  then have "\<bar>r - x\<bar> = \<bar>of_int (roundHalfEven (x / q)) - x / q\<bar> * q"
    using q by (simp add: abs_mult)
  also have "\<dots> \<le> (1 / 2) * q"
    using roundHalfEven_error [of "x / q"] q by (intro mult_right_mono) simp_all
  also have "(1 / 2) * q = 2 powi (e - 53)"
    by (simp add: q_def power_int_diff)
  finally have err: "\<bar>r - x\<bar> \<le> 2 powi (e - 53)" .
  have half: "(2::real) powi (e - 53) \<le> y / 2 ^ 53 + 2 powi (- 1075)"
    using es(3)
  proof
    assume "e = - 1022"
    then have "(2::real) powi (e - 53) = 2 powi (- 1075)" by simp
    moreover have "0 \<le> y / 2 ^ 53" using y(1) by simp
    ultimately show ?thesis by linarith
  next
    assume le: "2 powi e \<le> y"
    have "(2::real) powi (e - 53) = 2 powi e / 2 ^ 53" by (simp add: power_int_diff)
    also have "\<dots> \<le> y / 2 ^ 53" using le by (simp add: divide_right_mono)
    finally have "(2::real) powi (e - 53) \<le> y / 2 ^ 53" .
    moreover have "(0::real) \<le> 2 powi (- 1075)" by simp
    ultimately show ?thesis by linarith
  qed
  have "(2::real) powi (e - 53) \<le> 2 powi (1023 - 53)"
    using es(2) by (intro power_int_increasing) simp_all
  then have small: "(2::real) powi (e - 53) \<le> 2 ^ 970" by simp
  have "\<bar>r\<bar> \<le> \<bar>x\<bar> + \<bar>r - x\<bar>" by simp
  also have "\<dots> \<le> 2 ^ 1023 + 2 ^ 970" using assms err small by linarith
  also have "\<dots> < (2::real) ^ 1024" by simp
  finally have nofl: "\<not> 2 ^ 1024 \<le> \<bar>r\<bar>" by simp
  have td: "toDouble x = Num r"
    using False y(2) nofl by (simp add: toDouble_def Let_def r_def q_def e_def y_def)
  have "0 \<le> r" if "0 \<le> x"
  proof -
    from that q have "0 \<le> x / q" by simp
    then have "0 \<le> roundHalfEven (x / q)" by (rule roundHalfEven_nonneg)
    with q show ?thesis by (simp add: r_def)
  qed
  with td err half show ?thesis by (auto simp add: y_def)
qed

lemma tiny_bound: "(2::real) powi (- 1075) \<le> 1 / 2 ^ 60" "(0::real) \<le> 2 powi (- 1075)"
proof -
  have "(2::real) powi (- 1075) \<le> 2 powi (- 60)"
    by (intro power_int_increasing) simp_all
  then show "(2::real) powi (- 1075) \<le> 1 / 2 ^ 60"
    by (simp add: power_int_minus field_simps)
  show "(0::real) \<le> 2 powi (- 1075)" by simp
qed

lemma percent_double:
  assumes "0 < d" "0 \<le> p" "p \<le> d"
  shows "\<exists>r. numTimes (numDiv p d) 100 = Num r \<and> 0 \<le> r \<and> \<bar>r - 100 * p / d\<bar> \<le> 1 / 2 ^ 44"
proof -
  define x where "x = p / d"
  define t :: real where "t = 2 powi (- 1075)"
  have x: "0 \<le> x" "x \<le> 1" using assms by (simp_all add: x_def)
  have t: "0 \<le> t" "t \<le> 1 / 2 ^ 60" using tiny_bound by (simp_all add: t_def)
  have "\<bar>x\<bar> \<le> 2 ^ 1023" using x by simp
  from toDouble_bound [OF this] x obtain r1 where
    r1: "toDouble x = Num r1" "\<bar>r1 - x\<bar> \<le> x / 2 ^ 53 + t" "0 \<le> r1"
    by (auto simp add: t_def)
  have r1le: "r1 \<le> 2" using r1(2) x t by simp
  have "\<bar>r1 * 100\<bar> \<le> 2 ^ 1023" using r1le r1(3) by simp
  from toDouble_bound [OF this] r1(3) obtain r2 where
    r2: "toDouble (r1 * 100) = Num r2" "\<bar>r2 - r1 * 100\<bar> \<le> (r1 * 100) / 2 ^ 53 + t" "0 \<le> r2"
    by (auto simp add: t_def)
  have b1: "r1 - x \<le> x / 2 ^ 53 + t" "x - r1 \<le> x / 2 ^ 53 + t"
    using r1(2) by (simp_all add: abs_le_iff)
  have b2: "r2 - r1 * 100 \<le> (r1 * 100) / 2 ^ 53 + t" "r1 * 100 - r2 \<le> (r1 * 100) / 2 ^ 53 + t"
    using r2(2) by (simp_all add: abs_le_iff)
  have "r2 - 100 * x \<le> 1 / 2 ^ 44" "100 * x - r2 \<le> 1 / 2 ^ 44"
    using b1 b2 x t r1(3) by simp_all
  then have "\<bar>r2 - 100 * x\<bar> \<le> 1 / 2 ^ 44" by linarith
  moreover have "numTimes (numDiv p d) 100 = Num r2"
    using assms(1) r1(1) r2(1) by (simp add: numDiv_def x_def)
  ultimately show ?thesis using r2(3) by (simp add: x_def)
qed

lemma round_near:
  fixes r x e :: real
  assumes "\<bar>r - x\<bar> \<le> e" "e < 1 / 2"
  shows "\<bar>\<lfloor>r + 1 / 2\<rfloor> - round x\<bar> \<le> 1" "\<bar>of_int \<lfloor>r + 1 / 2\<rfloor> - x\<bar> \<le> 1 / 2 + e"
    "e < tieDistance x \<Longrightarrow> \<lfloor>r + 1 / 2\<rfloor> = round x"
proof -
  have "\<lfloor>x + 1 / 2\<rfloor> - 1 = \<lfloor>x + 1 / 2 - 1\<rfloor>" by linarith
  also have "\<dots> \<le> \<lfloor>r + 1 / 2\<rfloor>" using assms by (intro floor_mono) linarith
  finally have lo: "round x - 1 \<le> \<lfloor>r + 1 / 2\<rfloor>" by (simp add: round_def)
  have "\<lfloor>r + 1 / 2\<rfloor> \<le> \<lfloor>x + 1 / 2 + 1\<rfloor>" using assms by (intro floor_mono) linarith
  also have "\<dots> = \<lfloor>x + 1 / 2\<rfloor> + 1" by linarith
  finally have hi: "\<lfloor>r + 1 / 2\<rfloor> \<le> round x + 1" by (simp add: round_def)
  from lo hi show "\<bar>\<lfloor>r + 1 / 2\<rfloor> - round x\<bar> \<le> 1" by linarith
  have "\<bar>of_int \<lfloor>r + 1 / 2\<rfloor> - r\<bar> \<le> 1 / 2" by linarith
  with assms(1) show "\<bar>of_int \<lfloor>r + 1 / 2\<rfloor> - x\<bar> \<le> 1 / 2 + e" by linarith
  assume far: "e < tieDistance x"
  define n where "n = \<lfloor>x\<rfloor>"
  have n: "of_int n \<le> x" "x < of_int n + 1" unfolding n_def by linarith+
  from far have "x - of_int n - 1 / 2 < - e \<or> e < x - of_int n - 1 / 2"
    by (simp add: tieDistance_def n_def) linarith
  then show "\<lfloor>r + 1 / 2\<rfloor> = round x"
  proof
    assume a: "x - of_int n - 1 / 2 < - e"
    have "\<lfloor>x + 1 / 2\<rfloor> = n" using a n assms by (intro floor_unique) linarith+
    moreover have "\<lfloor>r + 1 / 2\<rfloor> = n" using a n assms by (intro floor_unique) linarith+
    ultimately show ?thesis by (simp add: round_def)
  next
    assume a: "e < x - of_int n - 1 / 2"
    have "\<lfloor>x + 1 / 2\<rfloor> = n + 1" using a n assms by (intro floor_unique) (simp, linarith)+
    moreover have "\<lfloor>r + 1 / 2\<rfloor> = n + 1" using a n assms by (intro floor_unique) (simp, linarith)+
    ultimately show ?thesis by (simp add: round_def)
  qed
qed

lemma calcProgressPercent_near:
  assumes "0 < d" "0 \<le> p" "p \<le> d"
  shows "\<exists>k. calcProgressPercent p d = Num (of_int k) \<and> 0 \<le> k \<and> k \<le> 100 \<and>
           \<bar>k - round (100 * p / d)\<bar> \<le> 1 \<and>
           \<bar>of_int k - 100 * p / d\<bar> \<le> 1 / 2 + 1 / 2 ^ 44 \<and>
           (1 / 2 ^ 44 < tieDistance (100 * p / d) \<longrightarrow> k = round (100 * p / d))"
proof -
  from percent_double [OF assms] obtain r where
    r: "numTimes (numDiv p d) 100 = Num r" "0 \<le> r" "\<bar>r - 100 * p / d\<bar> \<le> 1 / 2 ^ 44"
    by blast
  define k where "k = \<lfloor>r + 1 / 2\<rfloor>"
  have small: "(1::real) / 2 ^ 44 < 1 / 2" by simp
  note near = round_near [OF r(3) small, folded k_def]
  have c: "calcProgressPercent p d = Num (of_int k)"
    using assms(1) r(1) by (simp add: calcProgressPercent_def k_def)
  have "0 \<le> k" using r(2) by (simp add: k_def)
  moreover have "k \<le> 100"
  proof -
    have "100 * p / d \<le> 100" using assms by (simp add: pos_divide_le_eq)
    with r(3) small have "r + 1 / 2 < 101" by linarith
    then have "\<lfloor>r + 1 / 2\<rfloor> < 101" by (simp add: floor_less_iff)
    then show ?thesis by (simp add: k_def)
  qed
  ultimately show ?thesis using c near by blast
qed










section \<open>Progress tracker\<close>

lemma update_existing:
  assumes "db (watchDocId p i) = Some d"
  shows "updateWatchProgress db now p l i pos dur =
     (db(watchDocId p i \<mapsto> d\<lparr> w_lastPosition := pos, w_duration := dur,
          w_progressPercent := calcProgressPercent pos dur,
          w_completed := (numGe (calcProgressPercent pos dur) 90),
          w_updatedAt := now,
          w_completedAt := (if numGe (calcProgressPercent pos dur) 90 \<and> \<not> w_completed d
                            then Some now else w_completedAt d) \<rparr>),
      \<lparr> w_id = watchDocId p i, w_profileId = p, w_laneId = l, w_itemId = i,
        w_lastPosition = pos, w_duration = dur,
        w_progressPercent = calcProgressPercent pos dur,
        w_completed = (numGe (calcProgressPercent pos dur) 90),
        w_startedAt = w_startedAt d, w_updatedAt = now,
        w_completedAt = (if numGe (calcProgressPercent pos dur) 90 \<and> \<not> w_completed d
                         then Some now else w_completedAt d) \<rparr>,
      numGe (calcProgressPercent pos dur) 90 \<and> \<not> w_completed d)"
  using assms by (simp add: updateWatchProgress_def Let_def)

lemma update_new:
  assumes "db (watchDocId p i) = None"
  shows "updateWatchProgress db now p l i pos dur =
     (db(watchDocId p i \<mapsto>
        \<lparr> w_id = watchDocId p i, w_profileId = p, w_laneId = l, w_itemId = i,
          w_lastPosition = pos, w_duration = dur,
          w_progressPercent = calcProgressPercent pos dur,
          w_completed = (numGe (calcProgressPercent pos dur) 90),
          w_startedAt = now, w_updatedAt = now,
          w_completedAt = (if numGe (calcProgressPercent pos dur) 90 then Some now else None) \<rparr>),
      \<lparr> w_id = watchDocId p i, w_profileId = p, w_laneId = l, w_itemId = i,
          w_lastPosition = pos, w_duration = dur,
          w_progressPercent = calcProgressPercent pos dur,
          w_completed = (numGe (calcProgressPercent pos dur) 90),
          w_startedAt = now, w_updatedAt = now,
          w_completedAt = (if numGe (calcProgressPercent pos dur) 90 then Some now else None) \<rparr>,
      numGe (calcProgressPercent pos dur) 90)"
  using assms by (simp add: updateWatchProgress_def Let_def)

lemma calcProgressPercent_zero_duration: "calcProgressPercent pos 0 = Num 0"
  by (simp add: calcProgressPercent_def)

lemma storedAfter_Some:
  "\<exists>d. storedAfter db now p l i pos dur = Some d"
  by (simp add: storedAfter_def updateWatchProgress_def Let_def split: option.split)

lemma storedAfter_percent:
  "storedAfter db now p l i pos dur = Some d \<Longrightarrow>
     w_progressPercent d = calcProgressPercent pos dur \<and>
     w_completed d = numGe (calcProgressPercent pos dur) 90"
  by (auto simp add: storedAfter_def updateWatchProgress_def Let_def split: option.splits)

text \<open>
  For 23 of 40 seconds the stored percentage is 57, while \<open>round (100 * 23 / 40)\<close> is 58:
  the quotient 0.575 is not a double, the double nearest to it lies below it, and its
  product with 100 is rounded to 57.49999999999999, which \<^verbatim>\<open>Math.round\<close> takes down.
\<close>

theorem C3_counterexample:
  "map_option w_progressPercent
     (storedAfter Map.empty 7 ''kid'' ''lane-1'' ''item-1'' 23 40) = Some (Num 57) \<and>
   round (100 * 23 / (40::real)) = 58"
  by (simp add: storedAfter_def updateWatchProgress_def Let_def calcProgressPercent_def
        numDiv_def toDouble_eval round_def)

text \<open>
  C3, as the code has it. For every position and every duration greater than zero, a
  document is stored, whether or not one existed before; its \<open>progressPercent\<close> is
  \<^verbatim>\<open>Math.round((position / duration) * 100)\<close> with the quotient and the product each rounded
  to a double, and its \<open>completed\<close> flag is true exactly when that percentage is at
  least 90. For a position from zero to the duration the percentage is a whole number
  \<open>k\<close> from 0 to 100 that is at most \<open>1 / 2 + 1 / 2 ^ 44\<close> away from
  \<open>100 * position / duration\<close> and at most one away from \<open>round (100 * position / duration)\<close>
  (the rounding of the library, a tie going up, which is \<^verbatim>\<open>Math.round\<close>); it is equal to
  that rounding whenever \<open>100 * position / duration\<close> is more than \<open>1 / 2 ^ 44\<close> away from
  every number halfway between two integers.
\<close>

theorem C3_progress_percent_in_doubles:
  assumes "duration > 0"
  shows "\<exists>d. storedAfter db now profileId laneId itemId position duration = Some d \<and>
           w_progressPercent d = Math_round (numTimes (numDiv position duration) 100) \<and>
           (w_completed d \<longleftrightarrow> numGe (w_progressPercent d) 90) \<and>
           (0 \<le> position \<and> position \<le> duration \<longrightarrow>
              (\<exists>k. w_progressPercent d = Num (of_int k) \<and> 0 \<le> k \<and> k \<le> 100 \<and>
                 \<bar>k - round (100 * position / duration)\<bar> \<le> 1 \<and>
                 \<bar>of_int k - 100 * position / duration\<bar> \<le> 1 / 2 + 1 / 2 ^ 44 \<and>
                 (1 / 2 ^ 44 < tieDistance (100 * position / duration) \<longrightarrow>
                    k = round (100 * position / duration)) \<and>
                 (w_completed d \<longleftrightarrow> 90 \<le> k)))"
proof -
  obtain d where d: "storedAfter db now profileId laneId itemId position duration = Some d"
    using storedAfter_Some by blast
  note sp = storedAfter_percent [OF d]
  have pc: "w_progressPercent d = Math_round (numTimes (numDiv position duration) 100)"
    using sp assms by (simp add: calcProgressPercent_def)
  have cf: "w_completed d \<longleftrightarrow> numGe (w_progressPercent d) 90"
    using sp by simp
  have "\<exists>k. w_progressPercent d = Num (of_int k) \<and> 0 \<le> k \<and> k \<le> 100 \<and>
           \<bar>k - round (100 * position / duration)\<bar> \<le> 1 \<and>
           \<bar>of_int k - 100 * position / duration\<bar> \<le> 1 / 2 + 1 / 2 ^ 44 \<and>
           (1 / 2 ^ 44 < tieDistance (100 * position / duration) \<longrightarrow>
              k = round (100 * position / duration)) \<and>
           (w_completed d \<longleftrightarrow> 90 \<le> k)"
    if range: "0 \<le> position \<and> position \<le> duration"
  proof -
    from calcProgressPercent_near [of duration position] assms range obtain k where
      k: "calcProgressPercent position duration = Num (of_int k)" "0 \<le> k" "k \<le> 100"
        "\<bar>k - round (100 * position / duration)\<bar> \<le> 1"
        "\<bar>of_int k - 100 * position / duration\<bar> \<le> 1 / 2 + 1 / 2 ^ 44"
        "1 / 2 ^ 44 < tieDistance (100 * position / duration) \<longrightarrow>
           k = round (100 * position / duration)"
      by blast
    have "w_progressPercent d = Num (of_int k)" using sp k(1) by simp
    moreover have "w_completed d \<longleftrightarrow> 90 \<le> k" using sp k(1) by simp
    ultimately show ?thesis using k(2-6) by blast
  qed
  with d pc cf show ?thesis by blast
qed

theorem C3_witness:
  "\<exists>d. storedAfter Map.empty 7 ''kid'' ''lane-1'' ''item-1'' 45 50 = Some d \<and>
      w_progressPercent d = Num 90 \<and> w_completed d"
  using C3_progress_percent_in_doubles
    [of 50 Map.empty 7 "''kid''" "''lane-1''" "''item-1''" 45]
  by (auto simp add: tieDistance_def)

subsection \<open>A sample with duration zero\<close>

text \<open>
  With no document stored, a call with duration zero creates one; with a document stored,
  it overwrites position, duration, percentage, flag and update time.
\<close>

theorem C1_counterexample:
  "fst (updateWatchProgress Map.empty 5 ''kid'' ''lane-1'' ''item-1'' 30 0)
     (watchDocId ''kid'' ''item-1'') \<noteq> Map.empty (watchDocId ''kid'' ''item-1'')"
  by (simp add: updateWatchProgress_def Let_def)

text \<open>
  C1, as the code has it. The no-op for a sample without a duration is the guard of the
  content modal's \<^verbatim>\<open>saveProgress\<close>: when the duration it would pass on is zero or less, the
  whole state (both collections and the three atoms) is returned unchanged, and
  \<^verbatim>\<open>updateWatchProgress\<close> is not reached. \<^verbatim>\<open>updateWatchProgress\<close> itself, called with
  duration zero, divides by nothing and has no error result, but it writes: it creates the
  document with 0 percent and \<open>completed = False\<close> when none exists, and otherwise overwrites
  position, duration, percentage, flag and \<open>updatedAt\<close> of the stored one; in both cases
  \<open>newlyCompleted\<close> is false.
\<close>

theorem C1_zero_duration_guarded_by_caller:
  "((case dur of Some x \<Rightarrow> x | None \<Rightarrow> duration) \<le> 0 \<longrightarrow>
      saveProgress st activeContent currentProfile currentTime duration now clock lanes
        position dur = st) \<and>
   (db (watchDocId p i) = None \<longrightarrow>
      updateWatchProgress db now p l i pos 0 =
        (db(watchDocId p i \<mapsto>
           \<lparr> w_id = watchDocId p i, w_profileId = p, w_laneId = l, w_itemId = i,
             w_lastPosition = pos, w_duration = 0, w_progressPercent = Num 0, w_completed = False,
             w_startedAt = now, w_updatedAt = now, w_completedAt = None \<rparr>),
         \<lparr> w_id = watchDocId p i, w_profileId = p, w_laneId = l, w_itemId = i,
             w_lastPosition = pos, w_duration = 0, w_progressPercent = Num 0, w_completed = False,
             w_startedAt = now, w_updatedAt = now, w_completedAt = None \<rparr>,
         False)) \<and>
   (\<forall>d. db (watchDocId p i) = Some d \<longrightarrow>
      fst (updateWatchProgress db now p l i pos 0) =
        db(watchDocId p i \<mapsto> d\<lparr> w_lastPosition := pos, w_duration := 0,
             w_progressPercent := Num 0, w_completed := False, w_updatedAt := now \<rparr>) \<and>
      \<not> snd (snd (updateWatchProgress db now p l i pos 0)))"
proof (intro conjI impI allI)
  assume "(case dur of Some x \<Rightarrow> x | None \<Rightarrow> duration) \<le> 0"
  then show "saveProgress st activeContent currentProfile currentTime duration now clock lanes
      position dur = st"
    by (simp add: saveProgress_def Let_def split: option.split)
next
  assume "db (watchDocId p i) = None"
  then show "updateWatchProgress db now p l i pos 0 =
        (db(watchDocId p i \<mapsto>
           \<lparr> w_id = watchDocId p i, w_profileId = p, w_laneId = l, w_itemId = i,
             w_lastPosition = pos, w_duration = 0, w_progressPercent = Num 0, w_completed = False,
             w_startedAt = now, w_updatedAt = now, w_completedAt = None \<rparr>),
         \<lparr> w_id = watchDocId p i, w_profileId = p, w_laneId = l, w_itemId = i,
             w_lastPosition = pos, w_duration = 0, w_progressPercent = Num 0, w_completed = False,
             w_startedAt = now, w_updatedAt = now, w_completedAt = None \<rparr>,
         False)"
    by (simp add: update_new [of db p i] calcProgressPercent_zero_duration)
next
  fix d assume d: "db (watchDocId p i) = Some d"
  show "fst (updateWatchProgress db now p l i pos 0) =
        db(watchDocId p i \<mapsto> d\<lparr> w_lastPosition := pos, w_duration := 0,
             w_progressPercent := Num 0, w_completed := False, w_updatedAt := now \<rparr>)"
    using d by (simp add: update_existing [of db p i d] calcProgressPercent_zero_duration)
  show "\<not> snd (snd (updateWatchProgress db now p l i pos 0))"
    using d by (simp add: update_existing [of db p i d] calcProgressPercent_zero_duration)
qed

theorem C1_witness:
  "(let record = \<lparr> w_id = ''kid_item-1'', w_profileId = ''kid'', w_laneId = ''lane-1'',
                     w_itemId = ''item-1'', w_lastPosition = 95, w_duration = 100,
                     w_progressPercent = Num 95, w_completed = True, w_startedAt = 1,
                     w_updatedAt = 1, w_completedAt = Some 1 \<rparr>;
        st = \<lparr> watchHistoryDb = [''kid_item-1'' \<mapsto> record], earnedBadgesDb = Map.empty,
                 watchHistoryAtom = [record], earnedBadgesAtom = [], newBadgesAtom = [] \<rparr>;
        content = \<lparr> ac_item = \<lparr> it_id = ''item-1'', it_title = ''Cats'', it_thumbnailUrl = [],
                                   it_type = youtube_video,
                                   it_data = YouTubeData ''x'' None None None \<rparr>,
                      ac_laneId = ''lane-1'', ac_laneTitle = ''Animals'' \<rparr>;
        kid = \<lparr> p_id = ''kid'', p_displayName = ''Kid'', p_avatarUrl = [], p_role = child,
                  p_pin = None \<rparr>
    in p_role kid = child \<and>
       saveProgress st (Some content) (Some kid) 30 0 5 (\<lambda>b. 5) [] None None = st \<and>
       saveProgress st (Some content) (Some kid) 30 100 5 (\<lambda>b. 5) [] (Some 30) (Some 0) = st \<and>
       fst (snd (updateWatchProgress Map.empty 5 ''kid'' ''lane-1'' ''item-1'' 30 0)) =
         \<lparr> w_id = ''kid_item-1'', w_profileId = ''kid'', w_laneId = ''lane-1'',
           w_itemId = ''item-1'', w_lastPosition = 30, w_duration = 0,
           w_progressPercent = Num 0, w_completed = False, w_startedAt = 5, w_updatedAt = 5,
           w_completedAt = None \<rparr> \<and>
       fst (updateWatchProgress [''kid_item-1'' \<mapsto> record] 5 ''kid'' ''lane-1'' ''item-1'' 30 0)
           ''kid_item-1'' =
         Some \<lparr> w_id = ''kid_item-1'', w_profileId = ''kid'', w_laneId = ''lane-1'',
                w_itemId = ''item-1'', w_lastPosition = 30, w_duration = 0,
                w_progressPercent = Num 0, w_completed = False, w_startedAt = 1,
                w_updatedAt = 5, w_completedAt = Some 1 \<rparr> \<and>
       \<not> snd (snd (updateWatchProgress [''kid_item-1'' \<mapsto> record] 5 ''kid'' ''lane-1''
                      ''item-1'' 30 0)))"
  using C1_zero_duration_guarded_by_caller
    [where dur = None and duration = 0 and position = None and currentTime = 30
       and st = "\<lparr> watchHistoryDb = [''kid_item-1'' \<mapsto>
                   \<lparr> w_id = ''kid_item-1'', w_profileId = ''kid'', w_laneId = ''lane-1'',
                     w_itemId = ''item-1'', w_lastPosition = 95, w_duration = 100,
                     w_progressPercent = Num 95, w_completed = True, w_startedAt = 1,
                     w_updatedAt = 1, w_completedAt = Some 1 \<rparr>],
                 earnedBadgesDb = Map.empty,
                 watchHistoryAtom = [\<lparr> w_id = ''kid_item-1'', w_profileId = ''kid'',
                     w_laneId = ''lane-1'', w_itemId = ''item-1'', w_lastPosition = 95,
                     w_duration = 100, w_progressPercent = Num 95, w_completed = True,
                     w_startedAt = 1, w_updatedAt = 1, w_completedAt = Some 1 \<rparr>],
                 earnedBadgesAtom = [], newBadgesAtom = [] \<rparr>"
       and activeContent = "Some \<lparr> ac_item = \<lparr> it_id = ''item-1'', it_title = ''Cats'',
                                   it_thumbnailUrl = [], it_type = youtube_video,
                                   it_data = YouTubeData ''x'' None None None \<rparr>,
                      ac_laneId = ''lane-1'', ac_laneTitle = ''Animals'' \<rparr>"
       and currentProfile = "Some \<lparr> p_id = ''kid'', p_displayName = ''Kid'', p_avatarUrl = [],
                  p_role = child, p_pin = None \<rparr>"
       and now = 5 and clock = "\<lambda>b. 5" and lanes = "[]" and db = Map.empty
       and p = "''kid''" and i = "''item-1''" and l = "''lane-1''" and pos = 30]
    C1_zero_duration_guarded_by_caller
    [where dur = "Some 0" and duration = 100 and position = "Some 30" and currentTime = 30
       and st = "\<lparr> watchHistoryDb = [''kid_item-1'' \<mapsto>
                   \<lparr> w_id = ''kid_item-1'', w_profileId = ''kid'', w_laneId = ''lane-1'',
                     w_itemId = ''item-1'', w_lastPosition = 95, w_duration = 100,
                     w_progressPercent = Num 95, w_completed = True, w_startedAt = 1,
                     w_updatedAt = 1, w_completedAt = Some 1 \<rparr>],
                 earnedBadgesDb = Map.empty,
                 watchHistoryAtom = [\<lparr> w_id = ''kid_item-1'', w_profileId = ''kid'',
                     w_laneId = ''lane-1'', w_itemId = ''item-1'', w_lastPosition = 95,
                     w_duration = 100, w_progressPercent = Num 95, w_completed = True,
                     w_startedAt = 1, w_updatedAt = 1, w_completedAt = Some 1 \<rparr>],
                 earnedBadgesAtom = [], newBadgesAtom = [] \<rparr>"
       and activeContent = "Some \<lparr> ac_item = \<lparr> it_id = ''item-1'', it_title = ''Cats'',
                                   it_thumbnailUrl = [], it_type = youtube_video,
                                   it_data = YouTubeData ''x'' None None None \<rparr>,
                      ac_laneId = ''lane-1'', ac_laneTitle = ''Animals'' \<rparr>"
       and currentProfile = "Some \<lparr> p_id = ''kid'', p_displayName = ''Kid'', p_avatarUrl = [],
                  p_role = child, p_pin = None \<rparr>"
       and now = 5 and clock = "\<lambda>b. 5" and lanes = "[]"
       and db = "[''kid_item-1'' \<mapsto>
                   \<lparr> w_id = ''kid_item-1'', w_profileId = ''kid'', w_laneId = ''lane-1'',
                     w_itemId = ''item-1'', w_lastPosition = 95, w_duration = 100,
                     w_progressPercent = Num 95, w_completed = True, w_startedAt = 1,
                     w_updatedAt = 1, w_completedAt = Some 1 \<rparr>]"
       and p = "''kid''" and i = "''item-1''" and l = "''lane-1''" and pos = 30]
  by (simp add: watchDocId_def Let_def)

subsection \<open>Completion and its timestamp\<close>

lemma runUpdates_keeps_completion:
  assumes "\<forall>c \<in> set calls. numGe (calcProgressPercent (fst (snd (snd c))) (snd (snd (snd c)))) 90"
    and "db (watchDocId p i) = Some d" and "w_completed d"
  shows "\<exists>d'. runUpdates db p i calls (watchDocId p i) = Some d' \<and> w_completed d' \<and>
           w_completedAt d' = w_completedAt d"
  using assms
proof (induction calls arbitrary: db d)
  case Nil
  then show ?case by simp
next
  case (Cons c calls)
  obtain now l pos dur where c: "c = (now, l, pos, dur)" by (cases c) auto
  let ?d1 = "d\<lparr> w_lastPosition := pos, w_duration := dur,
          w_progressPercent := calcProgressPercent pos dur,
          w_completed := (numGe (calcProgressPercent pos dur) 90),
          w_updatedAt := now,
          w_completedAt := (if numGe (calcProgressPercent pos dur) 90 \<and> \<not> w_completed d
                            then Some now else w_completedAt d) \<rparr>"
  let ?db1 = "fst (updateWatchProgress db now p l i pos dur)"
  have ge: "numGe (calcProgressPercent pos dur) 90" using Cons.prems(1) c by simp
  have db1: "?db1 (watchDocId p i) = Some ?d1"
    using Cons.prems(2) by (simp add: update_existing [of db p i d])
  have comp: "w_completed ?d1" using ge by simp
  have rest: "\<forall>c \<in> set calls. numGe (calcProgressPercent (fst (snd (snd c))) (snd (snd (snd c)))) 90"
    using Cons.prems(1) by simp
  from Cons.IH [of ?db1 ?d1] rest db1 comp obtain d' where
    "runUpdates ?db1 p i calls (watchDocId p i) = Some d'" "w_completed d'"
    "w_completedAt d' = w_completedAt ?d1" by blast
  then show ?case using Cons.prems(3) c by simp
qed

text \<open>
  A record completed at time 1 (95 of 100 seconds) is set back to not completed by a
  sample of 10 seconds at time 2, and the next sample of 95 seconds, at time 3, replaces
  its completion time by 3.
\<close>

theorem C2_counterexample:
  "(let key = watchDocId ''kid'' ''item-1'';
        db1 = fst (updateWatchProgress Map.empty 1 ''kid'' ''lane-1'' ''item-1'' 95 100);
        db2 = fst (updateWatchProgress db1 2 ''kid'' ''lane-1'' ''item-1'' 10 100);
        db3 = fst (updateWatchProgress db2 3 ''kid'' ''lane-1'' ''item-1'' 95 100)
    in map_option w_completed (db1 key) = Some True \<and>
       map_option w_completedAt (db1 key) = Some (Some 1) \<and>
       map_option w_completed (db2 key) = Some False \<and>
       map_option w_completedAt (db3 key) = Some (Some 3))"
  by (simp add: updateWatchProgress_def Let_def calcProgressPercent_def numDiv_def toDouble_eval)

text \<open>
  C2, as the code has it. For a call on a stored record \<open>d\<close>: the stored \<open>completed\<close> flag
  afterwards is that call's own sample (percentage at least 90), whatever the flag was
  before, so a lower position sets it back to false; \<open>newlyCompleted\<close> is true exactly
  when the sample is at least 90 percent and the stored flag was false; \<open>completedAt\<close> is
  written exactly by such a call and is otherwise left as it was, in particular by every
  call made while the stored flag is true. Over a sequence of calls whose samples all
  reach 90 percent, a completed record stays completed and keeps its \<open>completedAt\<close>.
\<close>

theorem C2_completed_follows_latest_sample:
  assumes "db (watchDocId p i) = Some d"
  shows "(\<exists>d'. storedAfter db now p l i pos dur = Some d' \<and>
            (w_completed d' \<longleftrightarrow> numGe (calcProgressPercent pos dur) 90) \<and>
            (snd (snd (updateWatchProgress db now p l i pos dur)) \<longleftrightarrow>
               numGe (calcProgressPercent pos dur) 90 \<and> \<not> w_completed d) \<and>
            w_completedAt d' =
              (if snd (snd (updateWatchProgress db now p l i pos dur))
               then Some now else w_completedAt d) \<and>
            (w_completed d \<longrightarrow> w_completedAt d' = w_completedAt d)) \<and>
         (w_completed d \<and>
            (\<forall>c \<in> set calls. numGe (calcProgressPercent (fst (snd (snd c))) (snd (snd (snd c)))) 90)
          \<longrightarrow> (\<exists>d'. runUpdates db p i calls (watchDocId p i) = Some d' \<and> w_completed d' \<and>
                     w_completedAt d' = w_completedAt d))"
proof (intro conjI impI)
  show "\<exists>d'. storedAfter db now p l i pos dur = Some d' \<and>
            (w_completed d' \<longleftrightarrow> numGe (calcProgressPercent pos dur) 90) \<and>
            (snd (snd (updateWatchProgress db now p l i pos dur)) \<longleftrightarrow>
               numGe (calcProgressPercent pos dur) 90 \<and> \<not> w_completed d) \<and>
            w_completedAt d' =
              (if snd (snd (updateWatchProgress db now p l i pos dur))
               then Some now else w_completedAt d) \<and>
            (w_completed d \<longrightarrow> w_completedAt d' = w_completedAt d)"
    using assms by (simp add: storedAfter_def update_existing [of db p i d])
next
  assume "w_completed d \<and>
    (\<forall>c \<in> set calls. numGe (calcProgressPercent (fst (snd (snd c))) (snd (snd (snd c)))) 90)"
  then show "\<exists>d'. runUpdates db p i calls (watchDocId p i) = Some d' \<and> w_completed d' \<and>
      w_completedAt d' = w_completedAt d"
    using runUpdates_keeps_completion [of calls db p i d] assms by blast
qed

theorem C2_witness:
  "\<exists>d'. storedAfter
      [''kid_item-1'' \<mapsto>
         \<lparr> w_id = ''kid_item-1'', w_profileId = ''kid'', w_laneId = ''lane-1'',
           w_itemId = ''item-1'', w_lastPosition = 95, w_duration = 100,
           w_progressPercent = Num 95, w_completed = True, w_startedAt = 1, w_updatedAt = 1,
           w_completedAt = Some 1 \<rparr>]
      2 ''kid'' ''lane-1'' ''item-1'' 10 100 = Some d' \<and>
    \<not> w_completed d' \<and> w_completedAt d' = Some 1"
  using C2_completed_follows_latest_sample
    [of "[''kid_item-1'' \<mapsto>
         \<lparr> w_id = ''kid_item-1'', w_profileId = ''kid'', w_laneId = ''lane-1'',
           w_itemId = ''item-1'', w_lastPosition = 95, w_duration = 100,
           w_progressPercent = Num 95, w_completed = True, w_startedAt = 1, w_updatedAt = 1,
           w_completedAt = Some 1 \<rparr>]" "''kid''" "''item-1''"
        "\<lparr> w_id = ''kid_item-1'', w_profileId = ''kid'', w_laneId = ''lane-1'',
           w_itemId = ''item-1'', w_lastPosition = 95, w_duration = 100,
           w_progressPercent = Num 95, w_completed = True, w_startedAt = 1, w_updatedAt = 1,
           w_completedAt = Some 1 \<rparr>" 2 "''lane-1''" 10 100 "[]"]
  by (auto simp add: watchDocId_def calcProgressPercent_def numDiv_def toDouble_eval)

subsection \<open>The same sample twice\<close>

text \<open>
  Two calls with the same position and duration, at times 1 and 2, leave different
  documents: the second one carries \<open>updatedAt = 2\<close>.
\<close>

theorem C4_counterexample:
  "fst (updateWatchProgress
          (fst (updateWatchProgress Map.empty 1 ''kid'' ''lane-1'' ''item-1'' 50 100))
          2 ''kid'' ''lane-1'' ''item-1'' 50 100) (watchDocId ''kid'' ''item-1'')
   \<noteq> fst (updateWatchProgress Map.empty 1 ''kid'' ''lane-1'' ''item-1'' 50 100)
        (watchDocId ''kid'' ''item-1'')"
  by (simp add: updateWatchProgress_def Let_def calcProgressPercent_def numDiv_def toDouble_eval)

text \<open>
  C4, as the code has it. For every (profile, item) pair, every earlier content of the
  collection and two consecutive calls with the same lane, position and duration, read at
  clock values \<open>now1\<close> and \<open>now2\<close>: the second call returns \<open>newlyCompleted = False\<close>, and
  the document it leaves is the one the first call left with \<open>updatedAt\<close> set to \<open>now2\<close>;
  every other field (position, duration, percentage, flag, \<open>startedAt\<close>, \<open>completedAt\<close>) is
  the same, as is every other document. The returned records are related in the same way.
\<close>

theorem C4_second_call_refreshes_updatedAt_only:
  "(case updateWatchProgress db now1 p l i pos dur of
      (db1, r1, n1) \<Rightarrow>
        (case updateWatchProgress db1 now2 p l i pos dur of
           (db2, r2, n2) \<Rightarrow>
             (\<exists>d1. db1 (watchDocId p i) = Some d1 \<and>
                    db2 = db1(watchDocId p i \<mapsto> d1\<lparr> w_updatedAt := now2 \<rparr>)) \<and>
             r2 = r1\<lparr> w_updatedAt := now2 \<rparr> \<and> \<not> n2))"
proof (cases "db (watchDocId p i)")
  case None
  show ?thesis
    using None by (simp add: update_new [of db p i] update_existing [of _ p i])
next
  case (Some d)
  show ?thesis
    using Some by (cases d) (simp add: update_existing [of _ p i])
qed

section \<open>Badge engine\<close>

lemma badgeTypeName_inj: "badgeTypeName a = badgeTypeName b \<Longrightarrow> a = b"
  by (cases a; cases b) simp_all

lemma badgeDocId_inj: "badgeDocId p a = badgeDocId p b \<Longrightarrow> a = b"
  by (simp add: badgeDocId_def badgeTypeName_inj)

lemma awardBadge_cases:
  "awardBadge db now p bt md =
     (if db (badgeDocId p bt) = None
      then (db(badgeDocId p bt \<mapsto> newBadge now p bt md), Some (newBadge now p bt md))
      else (db, None))"
  by (auto simp add: awardBadge_def newBadge_def Let_def split: option.split)

lemma awardAndPush_cases:
  "awardAndPush (db, bs) now p bt md =
     (if db (badgeDocId p bt) = None
      then (db(badgeDocId p bt \<mapsto> newBadge now p bt md), bs @ [newBadge now p bt md])
      else (db, bs))"
  by (simp add: awardAndPush_def awardBadge_cases)

lemma laneMasterLoop_find:
  "laneMasterLoop st now p cids lanes =
     (case find (\<lambda>lane. l_items lane \<noteq> [] \<and> list_all (\<lambda>item. it_id item \<in> cids) (l_items lane)) lanes of
        None \<Rightarrow> st
      | Some lane \<Rightarrow> awardAndPush st now p lane_master
           (Some [(''laneId'', l_id lane), (''laneTitle'', l_title lane)]))"
  by (induction lanes) (auto simp add: Let_def)

lemma categoriesLoop_eq:
  "categoriesLoop lanes acc rs =
     acc \<union> set (map l_category (List.map_filter (\<lambda>w. find (\<lambda>l. l_id l = w_laneId w) lanes) rs))"
  by (induction rs arbitrary: acc) (auto simp add: split: option.split)

lemma laneComplete_code:
  "(l_items lane \<noteq> [] \<and>
     list_all (\<lambda>item. it_id item \<in> set (map w_itemId (filter w_completed h))) (l_items lane))
   = spec_laneComplete h lane"
  by (fastforce simp add: spec_laneComplete_def list_all_iff list_ex_iff image_iff)

lemma find_None_list_ex: "(find P xs = None) = (\<not> list_ex P xs)"
  by (auto simp add: find_None_iff list_ex_iff)

lemma checkAndAwardBadges_plan:
  "checkAndAwardBadges db clock p h lanes =
     awardSteps (db, []) p (\<lambda>bt. spec_trigger bt h lanes) clock
       (\<lambda>bt. spec_metadata bt h lanes) badgeOrder"
proof -
  have P: "(\<lambda>lane. l_items lane \<noteq> [] \<and>
      list_all (\<lambda>item. it_id item \<in> set (map w_itemId (filter w_completed h))) (l_items lane))
      = spec_laneComplete h"
    by (rule ext) (rule laneComplete_code)
  have ex: "list_ex (spec_laneComplete h) lanes = (find (spec_laneComplete h) lanes \<noteq> None)"
    using find_None_list_ex [of "spec_laneComplete h" lanes] by auto
  have lm: "laneMasterLoop st (clock lane_master) p (set (map w_itemId (filter w_completed h))) lanes
      = (if list_ex (spec_laneComplete h) lanes
         then awardAndPush st (clock lane_master) p lane_master (spec_metadata lane_master h lanes)
         else st)" for st
    unfolding laneMasterLoop_find P ex
    by (cases "find (spec_laneComplete h) lanes") (simp_all add: spec_metadata_def)
  have cats: "categoriesLoop lanes {} (filter w_completed h) = spec_categories h lanes"
    by (simp add: categoriesLoop_eq spec_categories_def)
  show ?thesis
    unfolding checkAndAwardBadges_def Let_def lm cats
    by (simp add: badgeOrder_def spec_metadata_def)
qed

lemma awardSteps_snd:
  assumes "distinct bts"
  shows "snd (awardSteps (db, bs) p cond clock md bts) =
     bs @ map (\<lambda>bt. newBadge (clock bt) p bt (md bt))
            (filter (\<lambda>bt. cond bt \<and> db (badgeDocId p bt) = None) bts)"
  using assms
proof (induction bts arbitrary: db bs)
  case Nil
  then show ?case by simp
next
  case (Cons bt bts)
  have other: "\<And>bt'. bt' \<in> set bts \<Longrightarrow> badgeDocId p bt' \<noteq> badgeDocId p bt"
    using Cons.prems by (auto dest: badgeDocId_inj)
  have flt: "filter (\<lambda>bt'. cond bt' \<and>
       (db(badgeDocId p bt \<mapsto> newBadge (clock bt) p bt (md bt))) (badgeDocId p bt') = None) bts
     = filter (\<lambda>bt'. cond bt' \<and> db (badgeDocId p bt') = None) bts"
    by (rule filter_cong) (auto dest: other)
  from Cons.prems have d: "distinct bts" by simp
  show ?case
    using Cons.IH [OF d] flt by (simp add: awardAndPush_cases)
qed

lemma awardSteps_fst:
  "fst (awardSteps (db, bs) p cond clock md bts) k =
     (if db k = None
      then (case find (\<lambda>bt. cond bt \<and> badgeDocId p bt = k) bts of
              Some bt \<Rightarrow> Some (newBadge (clock bt) p bt (md bt))
            | None \<Rightarrow> None)
      else db k)"
  by (induction bts arbitrary: db bs) (auto simp add: awardAndPush_cases)


lemma badgeDocId_eq_iff: "(badgeDocId p a = badgeDocId p b) = (a = b)"
  using badgeDocId_inj by blast

lemma find_eq_self:
  "find (\<lambda>y. P y \<and> y = x) xs = (if x \<in> set xs \<and> P x then Some x else None)"
  by (induction xs) auto

lemma badgeOrder_distinct: "distinct badgeOrder"
  by (simp add: badgeOrder_def)

lemma badgeOrder_all: "bt \<in> set badgeOrder"
  by (cases bt) (simp_all add: badgeOrder_def)

lemma check_snd:
  "snd (checkAndAwardBadges db clock p h lanes) =
     map (\<lambda>bt. newBadge (clock bt) p bt (spec_metadata bt h lanes))
       (filter (\<lambda>bt. spec_trigger bt h lanes \<and> db (badgeDocId p bt) = None) badgeOrder)"
  by (simp add: checkAndAwardBadges_plan awardSteps_snd [OF badgeOrder_distinct])

lemma check_fst:
  "fst (checkAndAwardBadges db clock p h lanes) k =
     (if db k = None
      then (case find (\<lambda>bt. spec_trigger bt h lanes \<and> badgeDocId p bt = k) badgeOrder of
              Some bt \<Rightarrow> Some (newBadge (clock bt) p bt (spec_metadata bt h lanes))
            | None \<Rightarrow> None)
      else db k)"
  by (simp add: checkAndAwardBadges_plan awardSteps_fst)

lemma check_fst_id:
  "fst (checkAndAwardBadges db clock p h lanes) (badgeDocId p bt) =
     (if db (badgeDocId p bt) = None
      then (if spec_trigger bt h lanes
            then Some (newBadge (clock bt) p bt (spec_metadata bt h lanes)) else None)
      else db (badgeDocId p bt))"
  by (simp add: check_fst badgeDocId_eq_iff find_eq_self badgeOrder_all)

lemma check_new_badges:
  assumes "b \<in> set (snd (checkAndAwardBadges db clock p h lanes))"
  shows "db (b_id b) = None \<and> fst (checkAndAwardBadges db clock p h lanes) (b_id b) = Some b"
proof -
  from assms obtain bt where bt: "spec_trigger bt h lanes" "db (badgeDocId p bt) = None"
      "b = newBadge (clock bt) p bt (spec_metadata bt h lanes)"
    by (auto simp add: check_snd)
  have "b_id b = badgeDocId p bt" by (simp add: bt(3) newBadge_def)
  then show ?thesis using bt by (simp add: check_fst_id)
qed

lemma check_changed_keys:
  assumes "fst (checkAndAwardBadges db clock p h lanes) k \<noteq> db k"
  shows "k \<in> b_id ` set (snd (checkAndAwardBadges db clock p h lanes))"
proof -
  from assms have none: "db k = None" by (auto simp add: check_fst split: if_splits)
  with assms obtain bt where f: "find (\<lambda>bt. spec_trigger bt h lanes \<and> badgeDocId p bt = k) badgeOrder = Some bt"
    by (auto simp add: check_fst split: option.splits)
  then have "spec_trigger bt h lanes" "badgeDocId p bt = k"
    by (auto simp add: find_Some_iff)
  with none have "newBadge (clock bt) p bt (spec_metadata bt h lanes)
      \<in> set (snd (checkAndAwardBadges db clock p h lanes))"
    by (simp add: check_snd badgeOrder_all)
  moreover have "b_id (newBadge (clock bt) p bt (spec_metadata bt h lanes)) = k"
    using \<open>badgeDocId p bt = k\<close> by (simp add: newBadge_def)
  ultimately show ?thesis by force
qed

lemma check_distinct_ids: "distinct (map b_id (snd (checkAndAwardBadges db clock p h lanes)))"
proof -
  have "map b_id (snd (checkAndAwardBadges db clock p h lanes)) =
      map (badgeDocId p) (filter (\<lambda>bt. spec_trigger bt h lanes \<and> db (badgeDocId p bt) = None) badgeOrder)"
    by (simp add: check_snd newBadge_def comp_def)
  moreover have "inj_on (badgeDocId p) A" for A
    by (rule inj_onI) (rule badgeDocId_inj)
  ultimately show ?thesis
    by (simp add: distinct_map badgeOrder_distinct)
qed

lemma check_keeps_existing:
  "db k = Some d \<Longrightarrow> fst (checkAndAwardBadges db clock p h lanes) k = Some d"
  by (simp add: check_fst)

lemma check_again:
  "checkAndAwardBadges (fst (checkAndAwardBadges db clock p h lanes)) clock' p h lanes =
     (fst (checkAndAwardBadges db clock p h lanes), [])"
proof (rule prod_eqI)
  let ?db' = "fst (checkAndAwardBadges db clock p h lanes)"
  have held: "?db' (badgeDocId p bt) \<noteq> None" if "spec_trigger bt h lanes" for bt
    using that by (simp add: check_fst_id)
  show "snd (checkAndAwardBadges ?db' clock' p h lanes) = snd (?db', [])"
    using held by (auto simp add: check_snd filter_empty_conv)
  show "fst (checkAndAwardBadges ?db' clock' p h lanes) = fst (?db', [])"
  proof (rule ext)
    fix k
    show "fst (checkAndAwardBadges ?db' clock' p h lanes) k = fst (?db', []) k"
    proof (cases "?db' k")
      case None
      have "find (\<lambda>bt. spec_trigger bt h lanes \<and> badgeDocId p bt = k) badgeOrder = None"
        unfolding find_None_iff using held None by force
      then show ?thesis using None by (simp add: check_fst [of ?db'])
    next
      case (Some d)
      then show ?thesis by (simp add: check_fst [of ?db'])
    qed
  qed
qed

lemma wellKeyed_awardBadge:
  assumes "wellKeyed db"
  shows "wellKeyed (fst (awardBadge db now p bt md))"
proof (cases "db (badgeDocId p bt)")
  case None
  have "wellKeyed (db(badgeDocId p bt \<mapsto> newBadge now p bt md))"
    unfolding wellKeyed_def
  proof (intro allI impI)
    fix k d
    assume kd: "(db(badgeDocId p bt \<mapsto> newBadge now p bt md)) k = Some d"
    show "k = badgeDocId (b_profileId d) (b_badgeType d) \<and> b_id d = k"
    proof (cases "k = badgeDocId p bt")
      case True
      with kd have "d = newBadge now p bt md" by simp
      then show ?thesis using True by (simp add: newBadge_def)
    next
      case False
      with kd have "db k = Some d" by simp
      with assms show ?thesis by (simp add: wellKeyed_def)
    qed
  qed
  then show ?thesis using None by (simp add: awardBadge_cases)
next
  case (Some d0)
  then show ?thesis using assms by (simp add: awardBadge_cases)
qed

lemma wellKeyed_check:
  assumes "wellKeyed db"
  shows "wellKeyed (fst (checkAndAwardBadges db clock p h lanes))"
  unfolding wellKeyed_def
proof (intro allI impI)
  fix k d
  assume kd: "fst (checkAndAwardBadges db clock p h lanes) k = Some d"
  show "k = badgeDocId (b_profileId d) (b_badgeType d) \<and> b_id d = k"
  proof (cases "db k")
    case None
    with kd obtain bt where f: "find (\<lambda>bt. spec_trigger bt h lanes \<and> badgeDocId p bt = k) badgeOrder = Some bt"
        and d: "d = newBadge (clock bt) p bt (spec_metadata bt h lanes)"
      by (auto simp add: check_fst split: option.splits)
    from f have "badgeDocId p bt = k" by (auto simp add: find_Some_iff)
    then show ?thesis by (auto simp add: d newBadge_def)
  next
    case (Some d0)
    with kd have "d = d0" by (simp add: check_fst)
    with Some assms show ?thesis by (simp add: wellKeyed_def)
  qed
qed

lemma wellKeyed_at_most_one:
  assumes "wellKeyed db"
  shows "finite (badgeRecords db q bt) \<and> card (badgeRecords db q bt) \<le> 1"
proof -
  have sub: "badgeRecords db q bt \<subseteq> {badgeDocId q bt}"
    using assms by (auto simp add: badgeRecords_def wellKeyed_def)
  then have fin: "finite (badgeRecords db q bt)" by (rule finite_subset) simp
  have "card (badgeRecords db q bt) \<le> card {badgeDocId q bt}"
    by (rule card_mono) (simp_all add: sub)
  with fin show ?thesis by simp
qed

lemma wellKeyed_empty: "wellKeyed Map.empty"
  by (simp add: wellKeyed_def)

text \<open>
  C5. Awarding a badge whose document exists returns \<open>None\<close> (no new badge, no error) and
  writes nothing; a second award of the same badge to the same profile, whatever the
  first one did, returns \<open>None\<close> and writes nothing. In a well keyed store (the empty
  store is, and \<^verbatim>\<open>awardBadge\<close> and \<^verbatim>\<open>checkAndAwardBadges\<close> keep it so) there is at most one
  document for every profile and badge type. The badges \<^verbatim>\<open>checkAndAwardBadges\<close> returns
  have pairwise different ids; each was absent before the call and is the document stored
  under its id after it; every document the call changed or created is among them; no
  document that existed before is changed; and running the evaluation again on the result
  returns no badge and leaves the store as it is.
\<close>

theorem C5_badges_awarded_once:
  "(db (badgeDocId p bt) \<noteq> None \<longrightarrow> awardBadge db now p bt md = (db, None)) \<and>
   awardBadge (fst (awardBadge db now p bt md)) now' p bt md' =
     (fst (awardBadge db now p bt md), None) \<and>
   (wellKeyed db \<longrightarrow>
      wellKeyed (fst (awardBadge db now p bt md)) \<and>
      wellKeyed (fst (checkAndAwardBadges db clock p h lanes)) \<and>
      (\<forall>q k. finite (badgeRecords db q k) \<and> card (badgeRecords db q k) \<le> 1)) \<and>
   distinct (map b_id (snd (checkAndAwardBadges db clock p h lanes))) \<and>
   (\<forall>b \<in> set (snd (checkAndAwardBadges db clock p h lanes)).
      db (b_id b) = None \<and> fst (checkAndAwardBadges db clock p h lanes) (b_id b) = Some b) \<and>
   (\<forall>k. fst (checkAndAwardBadges db clock p h lanes) k \<noteq> db k \<longrightarrow>
      k \<in> b_id ` set (snd (checkAndAwardBadges db clock p h lanes))) \<and>
   (\<forall>k d. db k = Some d \<longrightarrow> fst (checkAndAwardBadges db clock p h lanes) k = Some d) \<and>
   checkAndAwardBadges (fst (checkAndAwardBadges db clock p h lanes)) clock' p h lanes =
     (fst (checkAndAwardBadges db clock p h lanes), [])"
proof (intro conjI impI allI ballI)
  assume "db (badgeDocId p bt) \<noteq> None"
  then show "awardBadge db now p bt md = (db, None)"
    by (simp add: awardBadge_cases)
next
  show "awardBadge (fst (awardBadge db now p bt md)) now' p bt md' =
      (fst (awardBadge db now p bt md), None)"
    by (simp add: awardBadge_cases)
next
  assume "wellKeyed db"
  then show "wellKeyed (fst (awardBadge db now p bt md))"
    by (rule wellKeyed_awardBadge)
next
  assume "wellKeyed db"
  then show "wellKeyed (fst (checkAndAwardBadges db clock p h lanes))"
    by (rule wellKeyed_check)
next
  fix q k
  assume "wellKeyed db"
  then show "finite (badgeRecords db q k)" "card (badgeRecords db q k) \<le> 1"
    using wellKeyed_at_most_one [of db q k] by simp_all
next
  show "distinct (map b_id (snd (checkAndAwardBadges db clock p h lanes)))"
    by (rule check_distinct_ids)
next
  fix b
  assume "b \<in> set (snd (checkAndAwardBadges db clock p h lanes))"
  then show "db (b_id b) = None"
    "fst (checkAndAwardBadges db clock p h lanes) (b_id b) = Some b"
    using check_new_badges [of b db clock p h lanes] by simp_all
next
  fix k
  assume "fst (checkAndAwardBadges db clock p h lanes) k \<noteq> db k"
  then show "k \<in> b_id ` set (snd (checkAndAwardBadges db clock p h lanes))"
    by (rule check_changed_keys)
next
  fix k d
  assume "db k = Some d"
  then show "fst (checkAndAwardBadges db clock p h lanes) k = Some d"
    by (rule check_keeps_existing)
next
  show "checkAndAwardBadges (fst (checkAndAwardBadges db clock p h lanes)) clock' p h lanes =
      (fst (checkAndAwardBadges db clock p h lanes), [])"
    by (rule check_again)
qed

theorem C5_witness:
  "wellKeyed (fst (awardBadge Map.empty 7 ''kid'' first_watch None)) \<and>
   fst (awardBadge Map.empty 7 ''kid'' first_watch None) (badgeDocId ''kid'' first_watch) \<noteq> None \<and>
   awardBadge (fst (awardBadge Map.empty 7 ''kid'' first_watch None)) 8 ''kid'' first_watch None =
     (fst (awardBadge Map.empty 7 ''kid'' first_watch None), None) \<and>
   card (badgeRecords (fst (awardBadge Map.empty 7 ''kid'' first_watch None)) ''kid'' first_watch)
     \<le> 1"
  using C5_badges_awarded_once
      [of "fst (awardBadge Map.empty 7 ''kid'' first_watch None)" "''kid''" first_watch 8 None
          9 None "\<lambda>bt. 7" "[]" "[]"]
    wellKeyed_awardBadge [OF wellKeyed_empty, of 7 "''kid''" first_watch None]
  by (simp add: awardBadge_cases)

text \<open>
  C6. For every watch history and lane catalogue: the evaluation of the whole history is
  the evaluation of its completed records alone (records in progress never count); the
  badges it returns are, in the order of the source, exactly the badge types whose trigger
  in the badge table holds (1, 5, 10 and 25 completed records, a complete lane, four
  categories) and that the profile does not hold yet; in a history with one record for
  each item the completed records are as many as the completed items; after the call a badge is held
  exactly when it was held before or its trigger holds; at most one lane master badge is
  returned, and it names the first lane of the catalogue that has an item and whose every
  item has a completed record.
\<close>

theorem C6_badge_triggers:
  "checkAndAwardBadges db clock p h lanes =
     checkAndAwardBadges db clock p (filter w_completed h) lanes \<and>
   map b_badgeType (snd (checkAndAwardBadges db clock p h lanes)) =
     filter (\<lambda>bt. spec_trigger bt h lanes \<and> db (badgeDocId p bt) = None) badgeOrder \<and>
   (\<forall>bt. fst (checkAndAwardBadges db clock p h lanes) (badgeDocId p bt) \<noteq> None \<longleftrightarrow>
           db (badgeDocId p bt) \<noteq> None \<or> spec_trigger bt h lanes) \<and>
   length (filter (\<lambda>b. b_badgeType b = lane_master)
             (snd (checkAndAwardBadges db clock p h lanes))) \<le> 1 \<and>
   (distinct (map w_itemId h) \<longrightarrow>
      length (filter w_completed h) = card (w_itemId ` {w \<in> set h. w_completed w})) \<and>
   (\<forall>b \<in> set (snd (checkAndAwardBadges db clock p h lanes)).
      b_badgeType b = lane_master \<longrightarrow>
      (\<exists>lane. find (spec_laneComplete h) lanes = Some lane \<and>
         b_metadata b = Some [(''laneId'', l_id lane), (''laneTitle'', l_title lane)]))"
proof (intro conjI allI ballI impI)
  show "checkAndAwardBadges db clock p h lanes =
      checkAndAwardBadges db clock p (filter w_completed h) lanes"
    by (simp add: checkAndAwardBadges_def)
next
  show types: "map b_badgeType (snd (checkAndAwardBadges db clock p h lanes)) =
      filter (\<lambda>bt. spec_trigger bt h lanes \<and> db (badgeDocId p bt) = None) badgeOrder"
    by (simp add: check_snd newBadge_def comp_def)
  have "length (filter (\<lambda>b. b_badgeType b = lane_master)
             (snd (checkAndAwardBadges db clock p h lanes)))
      = length (filter (\<lambda>bt. bt = lane_master)
             (map b_badgeType (snd (checkAndAwardBadges db clock p h lanes))))"
    by (simp add: filter_map comp_def)
  also have "\<dots> = length (filter (\<lambda>bt. spec_trigger bt h lanes \<and> db (badgeDocId p bt) = None)
             (filter (\<lambda>bt. bt = lane_master) badgeOrder))"
    unfolding types by (simp add: conj_commute)
  also have "\<dots> \<le> length (filter (\<lambda>bt. bt = lane_master) badgeOrder)"
    by (rule length_filter_le)
  also have "\<dots> = 1" by (simp add: badgeOrder_def)
  finally show "length (filter (\<lambda>b. b_badgeType b = lane_master)
             (snd (checkAndAwardBadges db clock p h lanes))) \<le> 1" .
next
  assume "distinct (map w_itemId h)"
  then have "distinct (map w_itemId (filter w_completed h))"
    by (rule distinct_map_filter)
  then have "card (set (map w_itemId (filter w_completed h))) =
      length (map w_itemId (filter w_completed h))"
    by (rule distinct_card)
  then show "length (filter w_completed h) = card (w_itemId ` {w \<in> set h. w_completed w})"
    by simp
next
  fix bt
  show "fst (checkAndAwardBadges db clock p h lanes) (badgeDocId p bt) \<noteq> None \<longleftrightarrow>
      db (badgeDocId p bt) \<noteq> None \<or> spec_trigger bt h lanes"
    by (simp add: check_fst_id)
next
  fix b
  assume b: "b \<in> set (snd (checkAndAwardBadges db clock p h lanes))"
    and lm: "b_badgeType b = lane_master"
  from b obtain bt where bt: "spec_trigger bt h lanes"
      "b = newBadge (clock bt) p bt (spec_metadata bt h lanes)"
    by (auto simp add: check_snd)
  from bt(2) lm have "bt = lane_master" by (simp add: newBadge_def)
  with bt have ex: "list_ex (spec_laneComplete h) lanes"
    and md: "b_metadata b = spec_metadata lane_master h lanes"
    by (simp_all add: newBadge_def)
  from ex obtain lane where lane: "find (spec_laneComplete h) lanes = Some lane"
    using find_None_list_ex [of "spec_laneComplete h" lanes] by (cases "find (spec_laneComplete h) lanes") auto
  show "\<exists>lane. find (spec_laneComplete h) lanes = Some lane \<and>
      b_metadata b = Some [(''laneId'', l_id lane), (''laneTitle'', l_title lane)]"
    using lane md by (simp add: spec_metadata_def)
qed

theorem C6_witness:
  "map b_badgeType (snd (checkAndAwardBadges Map.empty (\<lambda>bt. 7) ''kid''
      [\<lparr> w_id = ''kid_a'', w_profileId = ''kid'', w_laneId = ''L1'', w_itemId = ''a'',
         w_lastPosition = 95, w_duration = 100, w_progressPercent = Num 95, w_completed = True,
         w_startedAt = 1, w_updatedAt = 2, w_completedAt = Some 2 \<rparr>,
       \<lparr> w_id = ''kid_b'', w_profileId = ''kid'', w_laneId = ''L2'', w_itemId = ''b'',
         w_lastPosition = 5, w_duration = 100, w_progressPercent = Num 5, w_completed = False,
         w_startedAt = 3, w_updatedAt = 4, w_completedAt = None \<rparr>]
      [\<lparr> l_id = ''L2'', l_profileId = ''kid'', l_title = ''Songs'', l_category = Music,
         l_isActive = True, l_sortOrder = 0,
         l_items = [\<lparr> it_id = ''b'', it_title = ''B'', it_thumbnailUrl = [],
                      it_type = youtube_video, it_data = YouTubeData ''vb'' None None None \<rparr>] \<rparr>,
       \<lparr> l_id = ''L1'', l_profileId = ''kid'', l_title = ''Space'', l_category = Science,
         l_isActive = True, l_sortOrder = 1,
         l_items = [\<lparr> it_id = ''a'', it_title = ''A'', it_thumbnailUrl = [],
                      it_type = youtube_video, it_data = YouTubeData ''va'' None None None \<rparr>] \<rparr>]))
   = [first_watch, lane_master]"
  using C6_badge_triggers [of Map.empty "\<lambda>bt. 7" "''kid''"
      "[\<lparr> w_id = ''kid_a'', w_profileId = ''kid'', w_laneId = ''L1'', w_itemId = ''a'',
         w_lastPosition = 95, w_duration = 100, w_progressPercent = Num 95, w_completed = True,
         w_startedAt = 1, w_updatedAt = 2, w_completedAt = Some 2 \<rparr>,
       \<lparr> w_id = ''kid_b'', w_profileId = ''kid'', w_laneId = ''L2'', w_itemId = ''b'',
         w_lastPosition = 5, w_duration = 100, w_progressPercent = Num 5, w_completed = False,
         w_startedAt = 3, w_updatedAt = 4, w_completedAt = None \<rparr>]"
      "[\<lparr> l_id = ''L2'', l_profileId = ''kid'', l_title = ''Songs'', l_category = Music,
         l_isActive = True, l_sortOrder = 0,
         l_items = [\<lparr> it_id = ''b'', it_title = ''B'', it_thumbnailUrl = [],
                      it_type = youtube_video, it_data = YouTubeData ''vb'' None None None \<rparr>] \<rparr>,
       \<lparr> l_id = ''L1'', l_profileId = ''kid'', l_title = ''Space'', l_category = Science,
         l_isActive = True, l_sortOrder = 1,
         l_items = [\<lparr> it_id = ''a'', it_title = ''A'', it_thumbnailUrl = [],
                      it_type = youtube_video, it_data = YouTubeData ''va'' None None None \<rparr>] \<rparr>]",
      THEN conjunct2, THEN conjunct1]
  by (simp add: badgeOrder_def spec_laneComplete_def spec_categories_def)

section \<open>Durations\<close>

























section \<open>Lane generation\<close>

lemma addVideos_eq:
  "addVideos (acc, S) vs =
     (acc @ spec_firstSeen (filter (\<lambda>v. v_videoId v \<notin> S) vs), S \<union> v_videoId ` set vs)"
proof (induction vs arbitrary: acc S)
  case Nil
  then show ?case by simp
next
  case (Cons v vs)
  show ?case
    by (auto simp add: Cons.IH conj_commute)
qed

lemma firstSeen_append:
  "spec_firstSeen (xs @ ys) =
     spec_firstSeen xs @ spec_firstSeen (filter (\<lambda>y. v_videoId y \<notin> v_videoId ` set xs) ys)"
proof (induction xs arbitrary: ys rule: spec_firstSeen.induct)
  case 1
  then show ?case by simp
next
  case (2 v vs)
  have flt: "filter (\<lambda>y. v_videoId y \<notin> v_videoId ` set (filter (\<lambda>w. v_videoId w \<noteq> v_videoId v) vs))
        (filter (\<lambda>w. v_videoId w \<noteq> v_videoId v) ys)
      = filter (\<lambda>y. v_videoId y \<notin> v_videoId ` set (v # vs)) ys"
    unfolding filter_filter by (rule filter_cong) auto
  show ?case
    using "2.IH" [of "filter (\<lambda>w. v_videoId w \<noteq> v_videoId v) ys"] flt by simp
qed

lemma searchLoop_eq:
  "fst (searchLoop search (acc, S) qs) =
     acc @ spec_firstSeen (filter (\<lambda>v. v_videoId v \<notin> S) (concat (map (spec_contribution search) qs)))"
proof (induction qs arbitrary: acc S)
  case Nil
  then show ?case by simp
next
  case (Cons q qs)
  show ?case
  proof (cases "search (q @ '' for kids educational'') searchOptions")
    case (Inl e)
    then show ?thesis by (simp add: Cons.IH spec_contribution_def)
  next
    case (Inr videos)
    have flt: "filter (\<lambda>x. v_videoId x \<notin> S \<and>
            v_videoId x \<notin> v_videoId ` {x \<in> set videos. v_videoId x \<notin> S}) ys
        = filter (\<lambda>v. v_videoId v \<notin> S \<and> v_videoId v \<notin> v_videoId ` set videos) ys"
      for ys :: "YouTubeVideoDetails list"
      by (rule filter_cong) auto
    show ?thesis
      by (simp add: Inr Cons.IH spec_contribution_def addVideos_eq firstSeen_append flt)
  qed
qed

lemma firstSeen_subset: "set (spec_firstSeen xs) \<subseteq> set xs"
  by (induction xs rule: spec_firstSeen.induct) auto

lemma firstSeen_ids: "v_videoId ` set (spec_firstSeen xs) = v_videoId ` set xs"
  by (induction xs rule: spec_firstSeen.induct) (auto simp add: image_iff)

lemma firstSeen_distinct: "distinct (map v_videoId (spec_firstSeen xs))"
proof (induction xs rule: spec_firstSeen.induct)
  case 1
  then show ?case by simp
next
  case (2 v vs)
  have "v_videoId v \<notin> v_videoId ` set (spec_firstSeen (filter (\<lambda>w. v_videoId w \<noteq> v_videoId v) vs))"
    using firstSeen_subset [of "filter (\<lambda>w. v_videoId w \<noteq> v_videoId v) vs"] by auto
  with "2.IH" show ?case by simp
qed

lemma searchLoop_failed:
  "isl (search (q @ '' for kids educational'') searchOptions) \<Longrightarrow>
     searchLoop search st (q # qs) = searchLoop search st qs"
  by (cases "search (q @ '' for kids educational'') searchOptions") simp_all


lemma spec_contribution_recovered:
  "spec_contribution (\<lambda>query opts. case search query opts of Inl e \<Rightarrow> Inr [] | Inr vs \<Rightarrow> Inr vs)
     = spec_contribution search"
  by (rule ext) (simp add: spec_contribution_def split: sum.split)

lemma searchStep_eq:
  "searchStep search qs = spec_firstSeen (concat (map (spec_contribution search) (take 4 qs)))"
  by (simp add: searchStep_def searchLoop_eq)

lemma searchStep_all_failed:
  assumes "\<forall>q \<in> set (take 4 qs). isl (search (q @ '' for kids educational'') searchOptions)"
  shows "searchStep search qs = []"
proof -
  have "\<forall>q \<in> set (take 4 qs). spec_contribution search q = []"
    using assms by (auto simp add: spec_contribution_def split: sum.split)
  then have c: "concat (map (spec_contribution search) (take 4 qs)) = []" by simp
  show ?thesis by (simp only: searchStep_eq c spec_firstSeen.simps)
qed

lemma selectItems_no_candidates: "selectItems [] maxVideos selectedVideos = Inr []"
  by (simp add: selectItems_def inBounds_def slice0_def)

text \<open>
  C7. The search step reads the first four queries only: two lists of queries that agree
  on their first four give the same candidates. The candidate list is the concatenation
  of what the first four queries contribute, in order, with every video dropped whose id
  occurred earlier; so its ids are pairwise different and are exactly the ids returned by
  the successful queries. A query whose call fails is skipped with the state unchanged,
  and the whole pipeline returns what it would return had every failed search returned
  an empty list: a failed search is never the pipeline's error.

  In \<^verbatim>\<open>generate\<close> itself: the lane returned for a plan is the lane returned for the plan
  cut to its first four queries. When the planning call returns a plan, the ranking
  call on the candidates of the plan's queries returns selections and the assembly of
  these selections over the same candidates returns items, \<^verbatim>\<open>generate\<close> returns the lane
  of the plan with these items, ordered by falling score, whatever the searches did. An
  error of \<^verbatim>\<open>generate\<close> is the error of the planning call, of the ranking call on the
  candidates, or of the assembly; it is never the error of a search. When the search of
  every one of the first four queries fails, the ranking call is made on no candidates,
  and if it answers \<^verbatim>\<open>generate\<close> returns the lane of the plan with no items.
\<close>

theorem C7_search_step:
  "(take 4 qs = take 4 qs' \<longrightarrow> searchStep search qs = searchStep search qs') \<and>
   searchStep search qs =
     spec_firstSeen (concat (map (spec_contribution search) (take 4 qs))) \<and>
   distinct (map v_videoId (searchStep search qs)) \<and>
   v_videoId ` set (searchStep search qs) =
     v_videoId ` set (concat (map (spec_contribution search) (take 4 qs))) \<and>
   (isl (search (q @ '' for kids educational'') searchOptions) \<longrightarrow>
      searchLoop search st (q # rest) = searchLoop search st rest) \<and>
   generate planner ranker search request =
     generate planner ranker
       (\<lambda>query opts. case search query opts of Inl e \<Rightarrow> Inr [] | Inr vs \<Rightarrow> Inr vs) request \<and>
   generate (\<lambda>r. Inr plan) ranker search request =
     generate (\<lambda>r. Inr (plan\<lparr> pl_searchQueries := take 4 (pl_searchQueries plan) \<rparr>))
       ranker search request \<and>
   (planner request = Inr plan \<and>
    ranker request (searchStep search (pl_searchQueries plan)) = Inr selections \<and>
    selectItems (searchStep search (pl_searchQueries plan))
      (case r_maxVideos request of Some n \<Rightarrow> n | None \<Rightarrow> 8) selections = Inr items \<longrightarrow>
    generate planner ranker search request =
      Inr \<lparr> gl_title = pl_title plan, gl_description = pl_description plan,
            gl_category = pl_category plan,
            gl_items = sort_key (\<lambda>item. - g_relevanceScore item) items \<rparr>) \<and>
   (generate planner ranker search request = Inl err \<longrightarrow>
      planner request = Inl err \<or>
      (\<exists>plan'. planner request = Inr plan' \<and>
         (ranker request (searchStep search (pl_searchQueries plan')) = Inl err \<or>
          (\<exists>selections'.
             ranker request (searchStep search (pl_searchQueries plan')) = Inr selections' \<and>
             selectItems (searchStep search (pl_searchQueries plan'))
               (case r_maxVideos request of Some n \<Rightarrow> n | None \<Rightarrow> 8) selections' =
               Inl err)))) \<and>
   (planner request = Inr plan \<and>
    (\<forall>query \<in> set (take 4 (pl_searchQueries plan)).
       isl (search (query @ '' for kids educational'') searchOptions)) \<and>
    ranker request [] = Inr selections \<longrightarrow>
    generate planner ranker search request =
      Inr \<lparr> gl_title = pl_title plan, gl_description = pl_description plan,
            gl_category = pl_category plan, gl_items = [] \<rparr>)"
proof (intro conjI impI)
  assume "take 4 qs = take 4 qs'"
  then show "searchStep search qs = searchStep search qs'"
    by (simp add: searchStep_def)
next
  show "searchStep search qs =
      spec_firstSeen (concat (map (spec_contribution search) (take 4 qs)))"
    by (rule searchStep_eq)
next
  show "distinct (map v_videoId (searchStep search qs))"
    unfolding searchStep_eq by (rule firstSeen_distinct)
next
  show "v_videoId ` set (searchStep search qs) =
      v_videoId ` set (concat (map (spec_contribution search) (take 4 qs)))"
    unfolding searchStep_eq by (rule firstSeen_ids)
next
  assume "isl (search (q @ '' for kids educational'') searchOptions)"
  then show "searchLoop search st (q # rest) = searchLoop search st rest"
    by (rule searchLoop_failed)
next
  have eq: "searchStep (\<lambda>query opts. case search query opts of Inl e \<Rightarrow> Inr [] | Inr vs \<Rightarrow> Inr vs)
      = searchStep search"
    by (rule ext) (simp only: searchStep_eq spec_contribution_recovered)
  show "generate planner ranker search request =
      generate planner ranker
        (\<lambda>query opts. case search query opts of Inl e \<Rightarrow> Inr [] | Inr vs \<Rightarrow> Inr vs) request"
    unfolding generate_def eq ..
next
  show "generate (\<lambda>r. Inr plan) ranker search request =
      generate (\<lambda>r. Inr (plan\<lparr> pl_searchQueries := take 4 (pl_searchQueries plan) \<rparr>))
        ranker search request"
    by (simp add: generate_def searchStep_def Let_def split: sum.split)
next
  assume "planner request = Inr plan \<and>
    ranker request (searchStep search (pl_searchQueries plan)) = Inr selections \<and>
    selectItems (searchStep search (pl_searchQueries plan))
      (case r_maxVideos request of Some n \<Rightarrow> n | None \<Rightarrow> 8) selections = Inr items"
  then show "generate planner ranker search request =
      Inr \<lparr> gl_title = pl_title plan, gl_description = pl_description plan,
            gl_category = pl_category plan,
            gl_items = sort_key (\<lambda>item. - g_relevanceScore item) items \<rparr>"
    by (simp add: generate_def Let_def)
next
  assume "generate planner ranker search request = Inl err"
  then show "planner request = Inl err \<or>
      (\<exists>plan'. planner request = Inr plan' \<and>
         (ranker request (searchStep search (pl_searchQueries plan')) = Inl err \<or>
          (\<exists>selections'.
             ranker request (searchStep search (pl_searchQueries plan')) = Inr selections' \<and>
             selectItems (searchStep search (pl_searchQueries plan'))
               (case r_maxVideos request of Some n \<Rightarrow> n | None \<Rightarrow> 8) selections' =
               Inl err)))"
    by (auto simp add: generate_def Let_def split: sum.splits)
next
  assume a: "planner request = Inr plan \<and>
    (\<forall>query \<in> set (take 4 (pl_searchQueries plan)).
       isl (search (query @ '' for kids educational'') searchOptions)) \<and>
    ranker request [] = Inr selections"
  then have "searchStep search (pl_searchQueries plan) = []"
    using searchStep_all_failed [of "pl_searchQueries plan" search] by blast
  with a show "generate planner ranker search request =
      Inr \<lparr> gl_title = pl_title plan, gl_description = pl_description plan,
            gl_category = pl_category plan, gl_items = [] \<rparr>"
    by (simp add: generate_def Let_def selectItems_no_candidates)
qed

theorem C7_witness:
  "(let mk = (\<lambda>i t. \<lparr> v_videoId = i, v_title = t, v_description = [], v_channelTitle = [],
                       v_channelId = [], v_thumbnailUrl = [], v_duration = ''PT5M'',
                       v_durationSeconds = 300, v_viewCount = 0, v_likeCount = 0,
                       v_tags = None \<rparr>);
        search = (\<lambda>query opts.
          if query = ''cats for kids educational'' then Inr [mk ''x'' ''1'', mk ''y'' ''2'']
          else if query = ''dogs for kids educational'' then Inl (JsError ''quota'')
          else Inr [mk ''y'' ''3'', mk ''z'' ''4'']);
        plan = \<lparr> pl_title = ''Animals'', pl_description = ''Pets'', pl_category = ''Science'',
             pl_searchQueries = [''cats'', ''dogs'', ''birds'', ''fish'', ''frogs''] \<rparr>;
        request = \<lparr> r_prompt = ''animals'', r_targetAge = None, r_maxVideos = None,
             r_profileName = None \<rparr>;
        selections = [\<lparr> s_index = 3, s_relevanceScore = 50, s_reason = ''a'' \<rparr>,
            \<lparr> s_index = 1, s_relevanceScore = 90, s_reason = ''b'' \<rparr>]
    in searchStep search [''cats'', ''dogs'', ''birds'', ''fish'', ''frogs''] =
         searchStep search [''cats'', ''dogs'', ''birds'', ''fish''] \<and>
       map v_title (searchStep search [''cats'', ''dogs'', ''birds'', ''fish'', ''frogs'']) =
         [''1'', ''2'', ''4''] \<and>
       map_sum id (\<lambda>lane. (gl_title lane, map g_videoId (gl_items lane)))
         (generate (\<lambda>r. Inr plan) (\<lambda>r vs. Inr selections) search request) =
         Inr (''Animals'', [''x'', ''z'']) \<and>
       generate (\<lambda>r. Inr plan) (\<lambda>r vs. Inr selections) (\<lambda>query opts. Inl (JsError ''quota''))
           request =
         Inr \<lparr> gl_title = ''Animals'', gl_description = ''Pets'', gl_category = ''Science'',
               gl_items = [] \<rparr>)"
  using C7_search_step
    [of "[''cats'', ''dogs'', ''birds'', ''fish'', ''frogs'']" "[''cats'', ''dogs'', ''birds'', ''fish'']"
        "\<lambda>query opts.
          if query = ''cats for kids educational''
          then Inr [\<lparr> v_videoId = ''x'', v_title = ''1'', v_description = [], v_channelTitle = [],
                       v_channelId = [], v_thumbnailUrl = [], v_duration = ''PT5M'',
                       v_durationSeconds = 300, v_viewCount = 0, v_likeCount = 0,
                       v_tags = None \<rparr>,
                    \<lparr> v_videoId = ''y'', v_title = ''2'', v_description = [], v_channelTitle = [],
                       v_channelId = [], v_thumbnailUrl = [], v_duration = ''PT5M'',
                       v_durationSeconds = 300, v_viewCount = 0, v_likeCount = 0,
                       v_tags = None \<rparr>]
          else if query = ''dogs for kids educational'' then Inl (JsError ''quota'')
          else Inr [\<lparr> v_videoId = ''y'', v_title = ''3'', v_description = [], v_channelTitle = [],
                       v_channelId = [], v_thumbnailUrl = [], v_duration = ''PT5M'',
                       v_durationSeconds = 300, v_viewCount = 0, v_likeCount = 0,
                       v_tags = None \<rparr>,
                    \<lparr> v_videoId = ''z'', v_title = ''4'', v_description = [], v_channelTitle = [],
                       v_channelId = [], v_thumbnailUrl = [], v_duration = ''PT5M'',
                       v_durationSeconds = 300, v_viewCount = 0, v_likeCount = 0,
                       v_tags = None \<rparr>]", THEN conjunct1]
    C7_search_step
    [where search = "\<lambda>query opts.
          if query = ''cats for kids educational''
          then Inr [\<lparr> v_videoId = ''x'', v_title = ''1'', v_description = [], v_channelTitle = [],
                       v_channelId = [], v_thumbnailUrl = [], v_duration = ''PT5M'',
                       v_durationSeconds = 300, v_viewCount = 0, v_likeCount = 0,
                       v_tags = None \<rparr>,
                    \<lparr> v_videoId = ''y'', v_title = ''2'', v_description = [], v_channelTitle = [],
                       v_channelId = [], v_thumbnailUrl = [], v_duration = ''PT5M'',
                       v_durationSeconds = 300, v_viewCount = 0, v_likeCount = 0,
                       v_tags = None \<rparr>]
          else if query = ''dogs for kids educational'' then Inl (JsError ''quota'')
          else Inr [\<lparr> v_videoId = ''y'', v_title = ''3'', v_description = [], v_channelTitle = [],
                       v_channelId = [], v_thumbnailUrl = [], v_duration = ''PT5M'',
                       v_durationSeconds = 300, v_viewCount = 0, v_likeCount = 0,
                       v_tags = None \<rparr>,
                    \<lparr> v_videoId = ''z'', v_title = ''4'', v_description = [], v_channelTitle = [],
                       v_channelId = [], v_thumbnailUrl = [], v_duration = ''PT5M'',
                       v_durationSeconds = 300, v_viewCount = 0, v_likeCount = 0,
                       v_tags = None \<rparr>]"
       and planner = "\<lambda>r. Inr \<lparr> pl_title = ''Animals'', pl_description = ''Pets'', pl_category = ''Science'',
             pl_searchQueries = [''cats'', ''dogs'', ''birds'', ''fish'', ''frogs''] \<rparr>"
       and plan = "\<lparr> pl_title = ''Animals'', pl_description = ''Pets'', pl_category = ''Science'',
             pl_searchQueries = [''cats'', ''dogs'', ''birds'', ''fish'', ''frogs''] \<rparr>"
       and request = "\<lparr> r_prompt = ''animals'', r_targetAge = None, r_maxVideos = None,
             r_profileName = None \<rparr>"
       and ranker = "\<lambda>r vs. Inr [\<lparr> s_index = 3, s_relevanceScore = 50, s_reason = ''a'' \<rparr>,
            \<lparr> s_index = 1, s_relevanceScore = 90, s_reason = ''b'' \<rparr>]"
       and selections = "[\<lparr> s_index = 3, s_relevanceScore = 50, s_reason = ''a'' \<rparr>,
            \<lparr> s_index = 1, s_relevanceScore = 90, s_reason = ''b'' \<rparr>]"
       and items = "[\<lparr> g_title = ''4'', g_thumbnailUrl = [], g_type = youtube_video,
               g_videoId = ''z'', g_loop = False, g_relevanceScore = 50, g_reason = ''a'',
               g_duration = formatDuration 300, g_channelTitle = [] \<rparr>,
            \<lparr> g_title = ''1'', g_thumbnailUrl = [], g_type = youtube_video,
               g_videoId = ''x'', g_loop = False, g_relevanceScore = 90, g_reason = ''b'',
               g_duration = formatDuration 300, g_channelTitle = [] \<rparr>]",
     THEN conjunct2, THEN conjunct2, THEN conjunct2, THEN conjunct2, THEN conjunct2,
     THEN conjunct2, THEN conjunct2, THEN conjunct1]
    C7_search_step
    [where search = "\<lambda>query opts. Inl (JsError ''quota'')"
       and planner = "\<lambda>r. Inr \<lparr> pl_title = ''Animals'', pl_description = ''Pets'', pl_category = ''Science'',
             pl_searchQueries = [''cats'', ''dogs'', ''birds'', ''fish'', ''frogs''] \<rparr>"
       and plan = "\<lparr> pl_title = ''Animals'', pl_description = ''Pets'', pl_category = ''Science'',
             pl_searchQueries = [''cats'', ''dogs'', ''birds'', ''fish'', ''frogs''] \<rparr>"
       and request = "\<lparr> r_prompt = ''animals'', r_targetAge = None, r_maxVideos = None,
             r_profileName = None \<rparr>"
       and ranker = "\<lambda>r vs. Inr [\<lparr> s_index = 3, s_relevanceScore = 50, s_reason = ''a'' \<rparr>,
            \<lparr> s_index = 1, s_relevanceScore = 90, s_reason = ''b'' \<rparr>]"
       and selections = "[\<lparr> s_index = 3, s_relevanceScore = 50, s_reason = ''a'' \<rparr>,
            \<lparr> s_index = 1, s_relevanceScore = 90, s_reason = ''b'' \<rparr>]",
     THEN conjunct2, THEN conjunct2, THEN conjunct2, THEN conjunct2, THEN conjunct2,
     THEN conjunct2, THEN conjunct2, THEN conjunct2, THEN conjunct2]
  by (simp add: searchStep_def Let_def selectItems_def inBounds_def slice0_def buildItem_def
        arrayAt_def)

subsection \<open>Selections and their indices\<close>

text \<open>
  C8 at a selection whose index is one half, over one candidate: the index is outside
  \<open>[1, 1]\<close>, it passes the test \<^verbatim>\<open>s.index > 0 && s.index <= allVideos.length\<close>, the read
  \<^verbatim>\<open>allVideos[-0.5]\<close> is \<^verbatim>\<open>undefined\<close>, and \<^verbatim>\<open>generate\<close> ends with the \<^verbatim>\<open>TypeError\<close> of
  \<^verbatim>\<open>video.title\<close>.
\<close>

theorem C8_fractional_index_throws:
  "(let video = \<lparr> v_videoId = ''x'', v_title = ''1'', v_description = [], v_channelTitle = [],
                   v_channelId = [], v_thumbnailUrl = [], v_duration = ''PT5M'',
                   v_durationSeconds = 300, v_viewCount = 0, v_likeCount = 0, v_tags = None \<rparr>;
        selection = \<lparr> s_index = 1 / 2, s_relevanceScore = 90, s_reason = ''good'' \<rparr>;
        request = \<lparr> r_prompt = ''cats'', r_targetAge = None, r_maxVideos = None,
                     r_profileName = None \<rparr>;
        plan = \<lparr> pl_title = ''Cats'', pl_description = [], pl_category = ''Science'',
                  pl_searchQueries = [''cats''] \<rparr>
    in \<not> (1 \<le> s_index selection \<and> s_index selection \<le> 1) \<and>
       filter (inBounds [video]) [selection] = [selection] \<and>
       selectItems [video] 8 [selection] =
         Inl (TypeError ''Cannot read properties of undefined'') \<and>
       generate (\<lambda>r. Inr plan) (\<lambda>r vs. Inr [selection]) (\<lambda>q opts. Inr [video]) request =
         Inl (TypeError ''Cannot read properties of undefined''))"
  by (simp add: Let_def generate_def searchStep_def selectItems_def inBounds_def slice0_def
        buildItem_def arrayAt_def)

lemma arrayAt_integer:
  assumes "i = of_int \<lfloor>i\<rfloor>" "0 < i" "i \<le> real (length xs)"
  shows "arrayAt xs (i - 1) = Some (xs ! (nat \<lfloor>i\<rfloor> - 1))"
proof -
  define k where "k = \<lfloor>i\<rfloor>"
  have i: "i = of_int k" using assms(1) by (simp add: k_def)
  have k: "1 \<le> k" "k \<le> int (length xs)" using assms(2,3) by (simp_all add: i)
  have f: "\<lfloor>i - 1\<rfloor> = k - 1" by (simp add: i)
  have "of_int \<lfloor>i - 1\<rfloor> = i - 1" by (simp add: i)
  moreover have "0 \<le> i - 1" "i - 1 < real (length xs)" using k by (simp_all add: i)
  moreover have "nat (k - 1) = nat k - 1" using k by arith
  then have "nat \<lfloor>i - 1\<rfloor> = nat k - 1" unfolding f .
  ultimately show ?thesis by (simp add: arrayAt_def k_def [symmetric])
qed

lemma buildItem_integer:
  assumes "s_index s = of_int \<lfloor>s_index s\<rfloor>" "inBounds vs s"
  shows "buildItem vs s = Inr (spec_itemAt vs s)"
  using assms arrayAt_integer [of "s_index s" vs]
  by (simp add: buildItem_def inBounds_def spec_itemAt_def Let_def)

lemma mapItems_integer:
  "\<forall>s \<in> set ss. s_index s = of_int \<lfloor>s_index s\<rfloor> \<and> inBounds vs s \<Longrightarrow>
     mapItems vs ss = Inr (map (spec_itemAt vs) ss)"
  by (induction ss) (simp_all add: buildItem_integer)

lemma set_slice0: "set (slice0 n xs) \<subseteq> set xs"
  by (auto simp add: slice0_def dest: in_set_takeD)

text \<open>
  For selections whose indices are whole numbers, step 4 has no error: it keeps, up to
  \<open>maxVideos\<close>, exactly the selections with an index from 1 to the number of candidates,
  and the item of each is built from the candidate at that index.
\<close>

theorem selectItems_integer_indices:
  assumes "\<forall>s \<in> set selectedVideos. s_index s = of_int \<lfloor>s_index s\<rfloor>"
  shows "selectItems allVideos maxVideos selectedVideos =
     Inr (map (spec_itemAt allVideos)
           (slice0 maxVideos
              (filter (\<lambda>s. 1 \<le> \<lfloor>s_index s\<rfloor> \<and> \<lfloor>s_index s\<rfloor> \<le> int (length allVideos))
                 selectedVideos)))"
proof -
  have flt: "filter (inBounds allVideos) selectedVideos =
      filter (\<lambda>s. 1 \<le> \<lfloor>s_index s\<rfloor> \<and> \<lfloor>s_index s\<rfloor> \<le> int (length allVideos)) selectedVideos"
  proof (rule filter_cong [OF refl])
    fix s assume "s \<in> set selectedVideos"
    with assms have i: "s_index s = of_int \<lfloor>s_index s\<rfloor>" by blast
    define k where "k = \<lfloor>s_index s\<rfloor>"
    have "s_index s = of_int k" using i by (simp add: k_def)
    then show "inBounds allVideos s =
        (1 \<le> \<lfloor>s_index s\<rfloor> \<and> \<lfloor>s_index s\<rfloor> \<le> int (length allVideos))"
      by (auto simp add: inBounds_def)
  qed
  have "\<forall>s \<in> set (slice0 maxVideos (filter (inBounds allVideos) selectedVideos)).
      s_index s = of_int \<lfloor>s_index s\<rfloor> \<and> inBounds allVideos s"
    using assms set_slice0 [of maxVideos "filter (inBounds allVideos) selectedVideos"] by auto
  then show ?thesis
    unfolding selectItems_def flt [symmetric] by (rule mapItems_integer)
qed

theorem selectItems_integer_witness:
  "(let video = \<lparr> v_videoId = ''x'', v_title = ''1'', v_description = [], v_channelTitle = [],
                   v_channelId = [], v_thumbnailUrl = [], v_duration = ''PT5M'',
                   v_durationSeconds = 300, v_viewCount = 0, v_likeCount = 0, v_tags = None \<rparr>
    in map g_videoId (projr (selectItems [video] 8
         [\<lparr> s_index = 0, s_relevanceScore = 50, s_reason = ''a'' \<rparr>,
          \<lparr> s_index = 1, s_relevanceScore = 90, s_reason = ''b'' \<rparr>,
          \<lparr> s_index = 2, s_relevanceScore = 70, s_reason = ''c'' \<rparr>])) = [''x''])"
  using selectItems_integer_indices
    [of "[\<lparr> s_index = 0, s_relevanceScore = 50, s_reason = ''a'' \<rparr>,
          \<lparr> s_index = 1, s_relevanceScore = 90, s_reason = ''b'' \<rparr>,
          \<lparr> s_index = 2, s_relevanceScore = 70, s_reason = ''c'' \<rparr>]"
        "[\<lparr> v_videoId = ''x'', v_title = ''1'', v_description = [], v_channelTitle = [],
                   v_channelId = [], v_thumbnailUrl = [], v_duration = ''PT5M'',
                   v_durationSeconds = 300, v_viewCount = 0, v_likeCount = 0, v_tags = None \<rparr>]" 8]
  by (simp add: slice0_def spec_itemAt_def)

section \<open>Structured generation\<close>

lemma backquote_not_space: "\<not> isSpace (CHR 0x60)"
  by (simp add: isSpace_def)

lemma take3_straddle:
  "xs \<noteq> [] \<Longrightarrow> take 3 (xs @ fence @ R) = take 3 (xs @ [CHR 0x60, CHR 0x60])"
proof (cases xs)
  case Nil
  assume "xs \<noteq> []"
  with Nil show ?thesis by simp
next
  case (Cons a ys)
  show ?thesis
  proof (cases ys)
    case Nil
    with Cons show ?thesis by (simp add: fence_def)
  next
    case (Cons b zs)
    with \<open>xs = a # ys\<close> show ?thesis by (cases zs) (simp_all add: fence_def)
  qed
qed

lemma occursIn_fence_Cons:
  "occursIn fence (c # cs) = (take 3 (c # cs) = fence \<or> occursIn fence cs)"
  by (simp add: fence_def numeral_2_eq_2)

lemma jsonMatch_skip:
  "\<not> occursIn fence (pre @ [CHR 0x60, CHR 0x60]) \<Longrightarrow>
     jsonMatch (pre @ fence @ R) = jsonMatch (fence @ R)"
proof (induction pre)
  case Nil
  then show ?case by simp
next
  case (Cons c pre)
  from Cons.prems have "\<not> occursIn fence (c # (pre @ [CHR 0x60, CHR 0x60]))" by simp
  then have no: "take 3 ((c # pre) @ [CHR 0x60, CHR 0x60]) \<noteq> fence"
    and rest: "\<not> occursIn fence (pre @ [CHR 0x60, CHR 0x60])"
    unfolding occursIn_fence_Cons by simp_all
  have "take 3 ((c # pre) @ fence @ R) \<noteq> fence"
    using no take3_straddle [of "c # pre" R] by simp
  then have "matchFence (c # pre @ fence @ R) = None"
    by (simp add: matchFence_def)
  then show ?case using Cons.IH [OF rest] by simp
qed

lemma occursIn_drop: "occursIn sub (drop k s) \<Longrightarrow> sub \<noteq> [] \<Longrightarrow> occursIn sub s"
proof (induction s arbitrary: k)
  case Nil
  then show ?case by simp
next
  case (Cons c s)
  then show ?case by (cases k) auto
qed

lemma not_closesHere_body:
  assumes "\<not> occursIn fence b" "b \<noteq> []" "last b \<noteq> CHR 0x60" "\<not> isSpace (last b)"
  shows "\<not> closesHere (b @ R)"
proof
  assume c: "closesHere (b @ R)"
  have mem: "last b \<in> set b" using assms(2) by simp
  have dw: "dropWhile isSpace (b @ R) = dropWhile isSpace b @ R"
    using mem assms(4) by (rule dropWhile_append1)
  define k where "k = length (takeWhile isSpace b)"
  have s': "dropWhile isSpace b = drop k b" by (simp add: k_def dropWhile_eq_drop)
  have ne: "dropWhile isSpace b \<noteq> []"
    using mem assms(4) by (auto simp add: dropWhile_eq_Nil_conv)
  then have k: "k < length b" by (simp add: s')
  have last': "last (drop k b) = last b" using k by (simp add: last_drop)
  have noocc: "\<not> occursIn fence (drop k b)"
    using assms(1) occursIn_drop [of fence k b] by (auto simp add: fence_def)
  from c have t: "take 3 (drop k b @ R) = fence" by (simp add: closesHere_def dw s')
  show False
  proof (cases "drop k b")
    case Nil
    with ne s' show False by simp
  next
    case (Cons x ys)
    note c1 = Cons
    show False
    proof (cases ys)
      case Nil
      with c1 t last' assms(3) show False by (simp add: fence_def)
    next
      case (Cons y zs)
      note c2 = Cons
      show False
      proof (cases zs)
        case Nil
        with c1 c2 t last' assms(3) show False by (simp add: fence_def)
      next
        case (Cons z ws)
        with c1 c2 t have "take 3 (drop k b) = fence" by simp
        with noocc c1 show False by (simp only: occursIn_fence_Cons) simp
      qed
    qed
  qed
qed

lemma lazyCapture_body:
  assumes "closesHere R"
  shows "\<not> occursIn fence b \<Longrightarrow> b \<noteq> [] \<Longrightarrow> last b \<noteq> CHR 0x60 \<Longrightarrow> \<not> isSpace (last b) \<Longrightarrow>
     lazyCapture (b @ R) = Some b"
proof (induction b)
  case Nil
  then show ?case by simp
next
  case (Cons c b)
  have R: "lazyCapture R = Some []"
    using assms by (cases R) (auto simp add: closesHere_def fence_def)
  have nc: "\<not> closesHere ((c # b) @ R)"
    using Cons.prems by (rule not_closesHere_body)
  show ?case
  proof (cases b)
    case Nil
    with nc R show ?thesis by simp
  next
    case (Cons d b')
    have "\<not> occursIn fence b" using Cons.prems(1) by (simp only: occursIn_fence_Cons) simp
    moreover have "b \<noteq> []" "last b \<noteq> CHR 0x60" "\<not> isSpace (last b)"
      using Cons Cons.prems by simp_all
    ultimately have "lazyCapture (b @ R) = Some b" by (rule Cons.IH)
    with nc show ?thesis by simp
  qed
qed

lemma closesHere_closing:
  "list_all isSpace ws2 \<Longrightarrow> closesHere (ws2 @ fence @ post)"
proof -
  assume "list_all isSpace ws2"
  then have "dropWhile isSpace (ws2 @ fence @ post) = dropWhile isSpace (fence @ post)"
    by (simp add: dropWhile_append2 list_all_iff)
  also have "\<dots> = fence @ post" by (simp add: fence_def backquote_not_space)
  finally show ?thesis by (simp add: closesHere_def fence_def)
qed

lemma jsonMatch_wrapped:
  assumes "spec_wrapped text body" "\<not> occursIn fence body" "last body \<noteq> CHR 0x60"
  shows "jsonMatch text = Some body"
proof -
  from assms(1) obtain pre tag ws1 ws2 post where
    t_eq: "text = pre @ fence @ tag @ ws1 @ body @ ws2 @ fence @ post"
    and pre: "\<not> occursIn fence (pre @ [CHR 0x60, CHR 0x60])"
    and tag: "tag = [] \<and> hd body \<noteq> CHR ''j'' \<or> tag = ''json''"
    and ws: "list_all isSpace ws1" "list_all isSpace ws2"
    and body: "body \<noteq> []" "\<not> isSpace (hd body)" "\<not> isSpace (last body)"
    unfolding spec_wrapped_def by blast
  let ?R = "ws2 @ fence @ post"
  have cap: "lazyCapture (body @ ?R) = Some body"
    using closesHere_closing [OF ws(2)] assms(2) body(1) assms(3) body(3)
    by (rule lazyCapture_body)
  have dw: "dropWhile isSpace (ws1 @ body @ ?R) = body @ ?R"
  proof -
    have "dropWhile isSpace (ws1 @ body @ ?R) = dropWhile isSpace (body @ ?R)"
      using ws(1) by (simp add: dropWhile_append2 list_all_iff)
    also have "\<dots> = body @ ?R" using body(1,2) by (cases body) simp_all
    finally show ?thesis .
  qed
  have nj: "take 4 (ws1 @ body @ ?R) \<noteq> ''json''" if "hd body \<noteq> CHR ''j''"
  proof (cases ws1)
    case Nil
    with that body(1) show ?thesis by (cases body) auto
  next
    case (Cons w ws')
    with ws(1) have "isSpace w" by simp
    then have "w \<noteq> CHR ''j''" by (auto simp add: isSpace_def)
    with Cons show ?thesis by auto
  qed
  have "matchFence (fence @ tag @ ws1 @ body @ ?R) = Some body"
    using tag
  proof
    assume "tag = [] \<and> hd body \<noteq> CHR ''j''"
    then show ?thesis using nj cap dw by (simp add: matchFence_def fence_def)
  next
    assume "tag = ''json''"
    then show ?thesis using cap dw by (simp add: matchFence_def fence_def)
  qed
  then have "jsonMatch (fence @ tag @ ws1 @ body @ ?R) = Some body"
    by (simp add: fence_def)
  then show ?thesis
    using jsonMatch_skip [OF pre, of "tag @ ws1 @ body @ ?R"] by (simp add: t_eq)
qed


text \<open>
  The response is a fenced block whose body is the JSON object with the one member
  \<^verbatim>\<open>a\<close>, a string of three backquotes. The stand-in for \<^verbatim>\<open>JSON.parse\<close> accepts the body and
  nothing else; like \<^verbatim>\<open>JSON.parse\<close> it rejects the whole response and the text the pattern
  captures, which stops in the middle of the string.
\<close>

theorem C9_counterexample:
  "(let q = [CHR 0x22];
        body = ''{'' @ q @ ''a'' @ q @ '':'' @ q @ fence @ q @ ''}'';
        response = fence @ ''json'' @ [CHR 0x0A] @ body @ [CHR 0x0A] @ fence;
        JSON_parse = (\<lambda>s. if s = body then Some s else None)
    in spec_wrapped response body \<and> JSON_parse body = Some body \<and>
       JSON_parse response = None \<and>
       generateJSON JSON_parse response =
         Inl (SyntaxError (''{'' @ q @ ''a'' @ q @ '':'' @ q)))"
proof -
  let ?q = "[CHR 0x22]"
  let ?body = "''{'' @ ?q @ ''a'' @ ?q @ '':'' @ ?q @ fence @ ?q @ ''}''"
  let ?response = "fence @ ''json'' @ [CHR 0x0A] @ ?body @ [CHR 0x0A] @ fence"
  have w: "spec_wrapped ?response ?body"
    unfolding spec_wrapped_def
    by (rule exI [of _ "[]"], rule exI [of _ "''json''"], rule exI [of _ "[CHR 0x0A]"],
        rule exI [of _ "[CHR 0x0A]"], rule exI [of _ "[]"])
       (simp add: fence_def isSpace_def)
  have m: "jsonMatch ?response = Some (''{'' @ ?q @ ''a'' @ ?q @ '':'' @ ?q)"
    by (simp add: fence_def matchFence_def closesHere_def isSpace_def)
  show ?thesis
    unfolding Let_def using w m by (simp add: generateJSON_def fence_def)
qed

text \<open>
  C9, as the code has it. A response that parses is returned. Otherwise, when the response
  is wrapped in a fenced code block whose opening fence is the first run of three
  backquotes of the response, and the body parses, holds no run of three backquotes and
  does not end in a backquote, the body is what the pattern captures and its parse is
  returned. An error comes back only when the response does not parse and either the
  pattern does not match or what it captures does not parse. The pattern ends the body at
  the first closing fence, so a body that holds three backquotes is cut there.
\<close>

theorem C9_fenced_recovery:
  "(JSON_parse response = Some v \<longrightarrow> generateJSON JSON_parse response = Inr v) \<and>
   (JSON_parse response = None \<and> spec_wrapped response body \<and>
      \<not> occursIn fence body \<and> last body \<noteq> CHR 0x60 \<and> JSON_parse body = Some v \<longrightarrow>
    generateJSON JSON_parse response = Inr v) \<and>
   (generateJSON JSON_parse response = Inl e \<longrightarrow>
      JSON_parse response = None \<and>
      (jsonMatch response = None \<or>
       (\<exists>b. jsonMatch response = Some b \<and> JSON_parse b = None)))"
proof (intro conjI impI)
  assume "JSON_parse response = Some v"
  then show "generateJSON JSON_parse response = Inr v"
    by (simp add: generateJSON_def)
next
  assume a: "JSON_parse response = None \<and> spec_wrapped response body \<and>
      \<not> occursIn fence body \<and> last body \<noteq> CHR 0x60 \<and> JSON_parse body = Some v"
  then have "jsonMatch response = Some body"
    using jsonMatch_wrapped [of response body] by blast
  with a show "generateJSON JSON_parse response = Inr v"
    by (simp add: generateJSON_def)
next
  assume e: "generateJSON JSON_parse response = Inl e"
  then show "JSON_parse response = None"
    by (cases "JSON_parse response") (simp_all add: generateJSON_def)
  from e show "jsonMatch response = None \<or>
       (\<exists>b. jsonMatch response = Some b \<and> JSON_parse b = None)"
    by (auto simp add: generateJSON_def split: option.splits)
qed

theorem C9_witness:
  "generateJSON (\<lambda>s. if s = ''{}'' then Some (0::nat) else None)
     (''Here it is: '' @ fence @ ''json'' @ [CHR 0x0A] @ ''{}'' @ [CHR 0x0A] @ fence) = Inr 0"
proof -
  have w: "spec_wrapped (''Here it is: '' @ fence @ ''json'' @ [CHR 0x0A] @ ''{}'' @ [CHR 0x0A] @ fence)
      ''{}''"
    unfolding spec_wrapped_def
    by (rule exI [of _ "''Here it is: ''"], rule exI [of _ "''json''"],
        rule exI [of _ "[CHR 0x0A]"], rule exI [of _ "[CHR 0x0A]"], rule exI [of _ "[]"])
       (simp add: fence_def isSpace_def)
  show ?thesis
    using C9_fenced_recovery
      [of "\<lambda>s. if s = ''{}'' then Some (0::nat) else None"
          "''Here it is: '' @ fence @ ''json'' @ [CHR 0x0A] @ ''{}'' @ [CHR 0x0A] @ fence" 0 "''{}''"]
      w
    by (simp add: fence_def)
qed

end
